theory Spec2Isabelle
  imports Complex_Main "HOL-Library.Multiset"
begin

section \<open>Pair catalog (src/models/currency.py)\<close>

text \<open>
  The three string enumerations of the catalog. Each member has a name (the Python
  identifier) and a value (the string it stands for). The constructors carry the class as
  a prefix, because the same member names occur in more than one enumeration.
\<close>

datatype BaseCurrency = Base_BTC | Base_ETH | Base_SOL | Base_ETC | Base_DOT | Base_ADA | Base_BNT

datatype QuoteCurrency = Quote_USD | Quote_EUR | Quote_BTC

datatype CoinGeckoId = Id_ADA | Id_BNT | Id_BTC | Id_DOT | Id_ETC | Id_ETH | Id_SOL

fun BaseCurrency_value :: "BaseCurrency \<Rightarrow> string" where
  "BaseCurrency_value Base_BTC = ''btc''"
| "BaseCurrency_value Base_ETH = ''eth''"
| "BaseCurrency_value Base_SOL = ''sol''"
| "BaseCurrency_value Base_ETC = ''etc''"
| "BaseCurrency_value Base_DOT = ''dot''"
| "BaseCurrency_value Base_ADA = ''ada''"
| "BaseCurrency_value Base_BNT = ''bnt''"

fun QuoteCurrency_value :: "QuoteCurrency \<Rightarrow> string" where
  "QuoteCurrency_value Quote_USD = ''usd''"
| "QuoteCurrency_value Quote_EUR = ''eur''"
| "QuoteCurrency_value Quote_BTC = ''btc''"

fun CoinGeckoId_name :: "CoinGeckoId \<Rightarrow> string" where
  "CoinGeckoId_name Id_ADA = ''ADA''"
| "CoinGeckoId_name Id_BNT = ''BNT''"
| "CoinGeckoId_name Id_BTC = ''BTC''"
| "CoinGeckoId_name Id_DOT = ''DOT''"
| "CoinGeckoId_name Id_ETC = ''ETC''"
| "CoinGeckoId_name Id_ETH = ''ETH''"
| "CoinGeckoId_name Id_SOL = ''SOL''"

fun CoinGeckoId_value :: "CoinGeckoId \<Rightarrow> string" where
  "CoinGeckoId_value Id_ADA = ''cardano''"
| "CoinGeckoId_value Id_BNT = ''bancor''"
| "CoinGeckoId_value Id_BTC = ''bitcoin''"
| "CoinGeckoId_value Id_DOT = ''polkadot''"
| "CoinGeckoId_value Id_ETC = ''ethereum-classic''"
| "CoinGeckoId_value Id_ETH = ''ethereum''"
| "CoinGeckoId_value Id_SOL = ''solana''"

definition CoinGeckoId_members :: "CoinGeckoId list" where
  "CoinGeckoId_members = [Id_ADA, Id_BNT, Id_BTC, Id_DOT, Id_ETC, Id_ETH, Id_SOL]"

text \<open>\<^verbatim>\<open>CoinGeckoId[name]\<close>: the member of that name; \<open>None\<close> stands for the KeyError.\<close>

definition CoinGeckoId_getitem :: "string \<Rightarrow> CoinGeckoId option" where
  "CoinGeckoId_getitem n = find (\<lambda>m. CoinGeckoId_name m = n) CoinGeckoId_members"

text \<open>
  \<^verbatim>\<open>str.upper()\<close> on ASCII text: the 26 lower-case letters go to their capitals, every
  other character stays. Symbols are ASCII here; the case mappings of Unicode beyond
  ASCII are outside this model.
\<close>

definition upper_char :: "char \<Rightarrow> char" where
  "upper_char c =
     (case map_of (zip ''abcdefghijklmnopqrstuvwxyz'' ''ABCDEFGHIJKLMNOPQRSTUVWXYZ'') c of
        None \<Rightarrow> c | Some C \<Rightarrow> C)"

definition upper :: "string \<Rightarrow> string" where
  "upper s = map upper_char s"

datatype error =
    ValueError string
  | KeyError string
  | TypeError
  | RequestException
  | HTTPError nat
  | JSONDecodeError
  | OverflowError
  | SQLAlchemyError
  | ValidationError
  | HTTPException nat string

definition get_coingecko_id :: "string \<Rightarrow> error + string" where
  "get_coingecko_id currency =
     (case CoinGeckoId_getitem (upper currency) of
        Some m \<Rightarrow> Inr (CoinGeckoId_value m)
      | None \<Rightarrow> Inl (ValueError (''Unsupported currency: '' @ currency)))"

record CurrencyPair =
  base :: BaseCurrency
  quote :: QuoteCurrency

definition CurrencyPair_str :: "CurrencyPair \<Rightarrow> string" where
  "CurrencyPair_str p = BaseCurrency_value (base p) @ ''/'' @ QuoteCurrency_value (quote p)"

definition PAIRS :: "string list" where
  "PAIRS =
     [CurrencyPair_str \<lparr>base = Base_BTC, quote = Quote_USD\<rparr>,
      CurrencyPair_str \<lparr>base = Base_ETH, quote = Quote_USD\<rparr>,
      CurrencyPair_str \<lparr>base = Base_SOL, quote = Quote_USD\<rparr>,
      CurrencyPair_str \<lparr>base = Base_ETC, quote = Quote_EUR\<rparr>,
      CurrencyPair_str \<lparr>base = Base_DOT, quote = Quote_USD\<rparr>,
      CurrencyPair_str \<lparr>base = Base_ADA, quote = Quote_USD\<rparr>,
      CurrencyPair_str \<lparr>base = Base_ETH, quote = Quote_BTC\<rparr>,
      CurrencyPair_str \<lparr>base = Base_BNT, quote = Quote_BTC\<rparr>]"

section \<open>Data model (src/models/price.py, src/db/schema.py)\<close>

text \<open>
  Instants are counted in microseconds since the Unix epoch, the resolution of Python's
  \<^verbatim>\<open>datetime\<close> and of the database's timestamps. Prices are Python floats and
  \<^verbatim>\<open>Float\<close> columns; they are modelled as real numbers, so rounding is outside this model.
\<close>

record Price =
  pair :: string
  price :: real
  timestamp :: int

record PriceHistory =
  ph_pair :: string
  ph_prices :: "Price list"
  volatility_rank :: "nat option"

text \<open>A row of the table \<^verbatim>\<open>price_history(pair, price, timestamp)\<close>.\<close>

record price_history_row =
  row_pair :: string
  row_price :: real
  row_timestamp :: int

definition us_per_hour :: int where
  "us_per_hour = 3600000000"

text \<open>\<^verbatim>\<open>datetime.min\<close> (year 1) and \<^verbatim>\<open>datetime.max\<close> (end of year 9999), in microseconds.\<close>

definition datetime_min :: int where
  "datetime_min = - 62135596800000000"

definition datetime_max :: int where
  "datetime_max = 253402300799999999"

section \<open>The service and its surroundings (src/services/price_service.py)\<close>

text \<open>
  A decoded JSON value, as \<^verbatim>\<open>response.json()\<close> returns it: \<^verbatim>\<open>None\<close>, a bool, a number, a
  string, a list, or a dict, given as its items (the keys are distinct).
\<close>

datatype json =
    JNull
  | JBool bool
  | JNumber real
  | JString string
  | JArray "json list"
  | JObject "(string \<times> json) list"

text \<open>
  What the service talks to is a parameter of every operation: the clock, the CoinGecko
  endpoint, the faults of the database and its \<^verbatim>\<open>STDDEV\<close> aggregate. An HTTP call either
  fails on the network (\<open>None\<close>, a \<^verbatim>\<open>RequestException\<close>) or yields a status code and a
  body; the body is \<open>None\<close> when it does not decode as JSON, and otherwise the decoded
  value, whatever its shape. The database raises \<^verbatim>\<open>SQLAlchemyError\<close> at exactly the
  operations \<open>db_fault\<close> selects. \<open>db_stddev\<close> is the value that \<^verbatim>\<open>STDDEV(price)\<close> has on the
  prices of a group, taken in table order: the database computes it in \<^verbatim>\<open>float8\<close>
  arithmetic, so it is whatever the database returns, and nothing is assumed about it.
  The application clock and the database's \<^verbatim>\<open>NOW()\<close> are taken to be one clock.
\<close>

datatype http_response = Response nat "json option"

datatype db_op =
    Connect
  | Insert price_history_row
  | Commit
  | Select_history string int
  | Select_rank string

record env =
  now :: int
  requests_get :: "string \<Rightarrow> string \<Rightarrow> http_response option"
  db_fault :: "db_op \<Rightarrow> bool"
  db_stddev :: "real list \<Rightarrow> real"

text \<open>
  The state of one service object: the committed rows of the table in insertion order, the
  attribute \<^verbatim>\<open>_last_update\<close> (unset until the first store), the two \<^verbatim>\<open>lru_cache\<close>s (least
  recently used entry first), and the traces of the database operations attempted and of
  the HTTP requests sent (their \<^verbatim>\<open>ids\<close> and \<^verbatim>\<open>vs_currencies\<close> parameters).
  A key of the history cache is the argument tuple of the call: the pair and the
  \<^verbatim>\<open>hours\<close> argument, \<open>None\<close> when the caller leaves it to its default.
\<close>

record service =
  price_history :: "price_history_row list"
  last_update :: "int option"
  history_cache :: "((string \<times> int option) \<times> Price list) list"
  rank_cache :: "(string \<times> nat option) list"
  db_log :: "db_op list"
  http_requests :: "(string \<times> string) list"

subsection \<open>functools.lru\_cache(maxsize=32)\<close>

definition maxsize :: nat where
  "maxsize = 32"

definition lru_lookup :: "'k \<Rightarrow> ('k \<times> 'v) list \<Rightarrow> 'v option" where
  "lru_lookup k c = map_of c k"

text \<open>A hit moves the entry to the most recently used end.\<close>

definition lru_touch :: "'k \<Rightarrow> ('k \<times> 'v) list \<Rightarrow> ('k \<times> 'v) list" where
  "lru_touch k c = filter (\<lambda>e. fst e \<noteq> k) c @ filter (\<lambda>e. fst e = k) c"

text \<open>
  After a miss the result is stored, unless the key appeared meanwhile; a full cache
  drops its least recently used entry first.
\<close>

definition lru_store :: "'k \<Rightarrow> 'v \<Rightarrow> ('k \<times> 'v) list \<Rightarrow> ('k \<times> 'v) list" where
  "lru_store k v c =
     (if map_of c k \<noteq> None then c
      else if length c < maxsize then c @ [(k, v)]
      else tl c @ [(k, v)])"

subsection \<open>store\_prices\<close>

text \<open>
  A connection sees the table (\<open>committed\<close>, what every reader sees) and holds the rows
  inserted by the transaction it has open (\<open>pending\<close>); they join the table at
  \<^verbatim>\<open>commit\<close>. Leaving the \<^verbatim>\<open>with\<close> block closes the connection, which rolls an open
  transaction back: the pending rows are dropped. Every operation attempted is traced,
  the one that fails included.
\<close>

record connection =
  committed :: "price_history_row list"
  pending :: "price_history_row list"
  statements :: "db_op list"

definition engine_connect :: "service \<Rightarrow> connection" where
  "engine_connect s = \<lparr>committed = price_history s, pending = [], statements = db_log s @ [Connect]\<rparr>"

definition conn_execute_insert ::
  "env \<Rightarrow> price_history_row \<Rightarrow> connection \<Rightarrow> (error + unit) \<times> connection" where
  "conn_execute_insert e r c =
     (if db_fault e (Insert r) then (Inl SQLAlchemyError, c\<lparr>statements := statements c @ [Insert r]\<rparr>)
      else (Inr (), c\<lparr>pending := pending c @ [r], statements := statements c @ [Insert r]\<rparr>))"

definition conn_commit :: "env \<Rightarrow> connection \<Rightarrow> (error + unit) \<times> connection" where
  "conn_commit e c =
     (if db_fault e Commit then (Inl SQLAlchemyError, c\<lparr>statements := statements c @ [Commit]\<rparr>)
      else (Inr (), c\<lparr>committed := committed c @ pending c, pending := [],
                       statements := statements c @ [Commit]\<rparr>))"

definition conn_close :: "connection \<Rightarrow> service \<Rightarrow> service" where
  "conn_close c s = s\<lparr>price_history := committed c, db_log := statements c\<rparr>"

text \<open>The loop \<^verbatim>\<open>for pair, price in prices.items(): conn.execute(INSERT ...)\<close>.\<close>

fun insert_prices ::
  "env \<Rightarrow> int \<Rightarrow> (string \<times> real) list \<Rightarrow> connection \<Rightarrow> (error + unit) \<times> connection" where
  "insert_prices e ts [] c = (Inr (), c)"
| "insert_prices e ts ((p, v) # items) c =
     (case conn_execute_insert e \<lparr>row_pair = p, row_price = v, row_timestamp = ts\<rparr> c of
        (Inl err, c') \<Rightarrow> (Inl err, c')
      | (Inr u, c') \<Rightarrow> insert_prices e ts items c')"

text \<open>
  \<^verbatim>\<open>prices\<close> is a dict, given as its items in order (the keys are distinct). The error is
  logged and raised again; the log of messages is not part of the state.
\<close>

definition store_prices :: "(string \<times> real) list \<Rightarrow> env \<Rightarrow> service \<Rightarrow> (error + unit) \<times> service" where
  "store_prices prices e s =
     (let ts = now e;
          s1 = s\<lparr>last_update := Some ts\<rparr>
      in if db_fault e Connect then (Inl SQLAlchemyError, s1\<lparr>db_log := db_log s1 @ [Connect]\<rparr>)
         else
           (case insert_prices e ts prices (engine_connect s1) of
              (Inl err, c1) \<Rightarrow> (Inl err, conn_close c1 s1)
            | (Inr u, c1) \<Rightarrow>
                (case conn_commit e c1 of
                   (Inl err, c2) \<Rightarrow> (Inl err, conn_close c2 s1)
                 | (Inr u', c2) \<Rightarrow> (Inr (), conn_close c2 s1))))"

subsection \<open>get\_price\_history\<close>

text \<open>
  The query: the rows of the pair with \<^verbatim>\<open>timestamp > :since\<close>, newest first. SQL leaves
  the order of rows with equal timestamps open; the model keeps them in table order.
\<close>

definition select_history :: "price_history_row list \<Rightarrow> string \<Rightarrow> int \<Rightarrow> price_history_row list" where
  "select_history rows p since =
     sort_key (\<lambda>r. - row_timestamp r) (filter (\<lambda>r. row_pair r = p \<and> row_timestamp r > since) rows)"

definition row_to_Price :: "price_history_row \<Rightarrow> Price" where
  "row_to_Price r = \<lparr>pair = row_pair r, price = row_price r, timestamp = row_timestamp r\<rparr>"

text \<open>
  The decorated function. Its first statement empties the cache of
  \<^verbatim>\<open>get_price_history\<close>. \<^verbatim>\<open>datetime.now(UTC) - timedelta(hours=hours)\<close> raises
  \<^verbatim>\<open>OverflowError\<close> when the result leaves the range of \<^verbatim>\<open>datetime\<close>; that happens with
  the connection open and before the query is sent, and it is not caught.
\<close>

definition get_price_history_body ::
  "string \<Rightarrow> int \<Rightarrow> env \<Rightarrow> service \<Rightarrow> (error + Price list) \<times> service" where
  "get_price_history_body p hours e s =
     (let s1 = s\<lparr>history_cache := []\<rparr>
      in if db_fault e Connect then (Inl SQLAlchemyError, s1\<lparr>db_log := db_log s1 @ [Connect]\<rparr>)
         else
           (let since = now e - hours * us_per_hour
            in if since < datetime_min \<or> datetime_max < since
               then (Inl OverflowError, s1\<lparr>db_log := db_log s1 @ [Connect]\<rparr>)
               else if db_fault e (Select_history p since)
               then (Inl SQLAlchemyError, s1\<lparr>db_log := db_log s1 @ [Connect, Select_history p since]\<rparr>)
               else (Inr (map row_to_Price (select_history (price_history s1) p since)),
                     s1\<lparr>db_log := db_log s1 @ [Connect, Select_history p since]\<rparr>)))"

text \<open>
  The function as callers see it, under \<^verbatim>\<open>@lru_cache(maxsize=32)\<close>: a call whose
  arguments are in the cache returns the stored list and does not run the body; otherwise
  the body runs and, when it returns, its result is stored under the arguments. A call
  that raises stores nothing.
\<close>

definition get_price_history ::
  "string \<Rightarrow> int option \<Rightarrow> env \<Rightarrow> service \<Rightarrow> (error + Price list) \<times> service" where
  "get_price_history p hours e s =
     (case lru_lookup (p, hours) (history_cache s) of
        Some v \<Rightarrow> (Inr v, s\<lparr>history_cache := lru_touch (p, hours) (history_cache s)\<rparr>)
      | None \<Rightarrow>
          (case get_price_history_body p (case hours of None \<Rightarrow> 24 | Some h \<Rightarrow> h) e s of
             (Inl err, s') \<Rightarrow> (Inl err, s')
           | (Inr v, s') \<Rightarrow> (Inr v, s'\<lparr>history_cache := lru_store (p, hours) v (history_cache s')\<rparr>)))"

subsection \<open>get\_volatility\_rank\<close>

text \<open>
  The query, clause by clause. \<^verbatim>\<open>WHERE timestamp >= NOW() - INTERVAL '24 HOURS'\<close> keeps
  the rows of the window; \<^verbatim>\<open>GROUP BY pair ... HAVING COUNT(*) > 1\<close> keeps the pairs with
  more than one row there; \<^verbatim>\<open>STDDEV(price)\<close> is the database's aggregate \<open>agg\<close>, applied
  only to those groups.
\<close>

definition in_window :: "price_history_row list \<Rightarrow> int \<Rightarrow> price_history_row list" where
  "in_window rows t = filter (\<lambda>r. row_timestamp r \<ge> t - 24 * us_per_hour) rows"

definition group_rows :: "price_history_row list \<Rightarrow> string \<Rightarrow> price_history_row list" where
  "group_rows rows p = filter (\<lambda>r. row_pair r = p) rows"

text \<open>The prices of one pair inside the window, the input of its \<^verbatim>\<open>COUNT\<close> and \<^verbatim>\<open>STDDEV\<close>.\<close>

definition window_prices :: "price_history_row list \<Rightarrow> int \<Rightarrow> string \<Rightarrow> real list" where
  "window_prices rows t p = map row_price (group_rows (in_window rows t) p)"

definition pair_stddev ::
  "(real list \<Rightarrow> real) \<Rightarrow> price_history_row list \<Rightarrow> int \<Rightarrow> (string \<times> real) list" where
  "pair_stddev agg rows t =
     map (\<lambda>p. (p, agg (window_prices rows t p)))
       (filter (\<lambda>p. length (window_prices rows t p) > 1) (remdups (map row_pair (in_window rows t))))"

text \<open>
  \<^verbatim>\<open>RANK() OVER (ORDER BY std_dev DESC)\<close>: the rows are sorted by falling standard
  deviation and numbered from 1; a row whose value equals that of the row before it takes
  that row's rank, any other row takes its own position.
\<close>

fun rank_rows :: "nat \<Rightarrow> (real \<times> nat) option \<Rightarrow> (string \<times> real) list \<Rightarrow> (string \<times> nat) list" where
  "rank_rows i prev [] = []"
| "rank_rows i prev ((p, sd) # rest) =
     (let r = (case prev of
                 None \<Rightarrow> i
               | Some (sd', r') \<Rightarrow> if sd' = sd then r' else i)
      in (p, r) # rank_rows (Suc i) (Some (sd, r)) rest)"

definition pair_ranks ::
  "(real list \<Rightarrow> real) \<Rightarrow> price_history_row list \<Rightarrow> int \<Rightarrow> (string \<times> nat) list" where
  "pair_ranks agg rows t = rank_rows 1 None (sort_key (\<lambda>(p, sd). - sd) (pair_stddev agg rows t))"

text \<open>\<^verbatim>\<open>SELECT rank FROM pair_ranks WHERE pair = :pair\<close>, then \<^verbatim>\<open>fetchone()\<close>.\<close>

definition select_rank ::
  "(real list \<Rightarrow> real) \<Rightarrow> price_history_row list \<Rightarrow> int \<Rightarrow> string \<Rightarrow> nat option" where
  "select_rank agg rows t p = map_of (pair_ranks agg rows t) p"

definition get_volatility_rank_body ::
  "string \<Rightarrow> env \<Rightarrow> service \<Rightarrow> (error + nat option) \<times> service" where
  "get_volatility_rank_body p e s =
     (if db_fault e Connect then (Inl SQLAlchemyError, s\<lparr>db_log := db_log s @ [Connect]\<rparr>)
      else if db_fault e (Select_rank p)
      then (Inl SQLAlchemyError, s\<lparr>db_log := db_log s @ [Connect, Select_rank p]\<rparr>)
      else (Inr (select_rank (db_stddev e) (price_history s) (now e) p),
            s\<lparr>db_log := db_log s @ [Connect, Select_rank p]\<rparr>))"

text \<open>The function under \<^verbatim>\<open>@lru_cache(maxsize=32)\<close>; nothing ever clears this cache.\<close>

definition get_volatility_rank ::
  "string \<Rightarrow> env \<Rightarrow> service \<Rightarrow> (error + nat option) \<times> service" where
  "get_volatility_rank p e s =
     (case lru_lookup p (rank_cache s) of
        Some v \<Rightarrow> (Inr v, s\<lparr>rank_cache := lru_touch p (rank_cache s)\<rparr>)
      | None \<Rightarrow>
          (case get_volatility_rank_body p e s of
             (Inl err, s') \<Rightarrow> (Inl err, s')
           | (Inr v, s') \<Rightarrow> (Inr v, s'\<lparr>rank_cache := lru_store p v (rank_cache s')\<rparr>)))"

subsection \<open>fetch\_prices\<close>

text \<open>\<^verbatim>\<open>str.split(sep)\<close> for a one-character separator, and \<^verbatim>\<open>sep.join(...)\<close>.\<close>

fun str_split :: "char \<Rightarrow> string \<Rightarrow> string list" where
  "str_split sep [] = [[]]"
| "str_split sep (c # cs) =
     (if c = sep then [] # str_split sep cs
      else (case str_split sep cs of
              [] \<Rightarrow> [[c]]
            | w # ws \<Rightarrow> (c # w) # ws))"

fun join :: "string \<Rightarrow> string list \<Rightarrow> string" where
  "join sep [] = []"
| "join sep [w] = w"
| "join sep (w # ws) = w @ sep @ join sep ws"

text \<open>
  A dict as its items in insertion order: assigning to a key that is present replaces the
  value in place, a new key goes to the end.
\<close>

fun dict_set :: "'k \<Rightarrow> 'v \<Rightarrow> ('k \<times> 'v) list \<Rightarrow> ('k \<times> 'v) list" where
  "dict_set k v [] = [(k, v)]"
| "dict_set k v ((k', v') # d) = (if k' = k then (k, v) # d else (k', v') # dict_set k v d)"

text \<open>
  The first loop: \<^verbatim>\<open>base, quote = pair.split("/")\<close> raises \<^verbatim>\<open>ValueError\<close> unless the
  split has exactly two parts; the base is appended to the list of its quote.
\<close>

fun quote_groups_of :: "string list \<Rightarrow> (string \<times> string list) list \<Rightarrow> error + (string \<times> string list) list" where
  "quote_groups_of [] groups = Inr groups"
| "quote_groups_of (pr # prs) groups =
     (case str_split CHR ''/'' pr of
        [b, q] \<Rightarrow>
          quote_groups_of prs
            (case map_of groups q of
               None \<Rightarrow> groups @ [(q, [b])]
             | Some bs \<Rightarrow> dict_set q (bs @ [b]) groups)
      | _ \<Rightarrow> Inl (ValueError ''not enough or too many values to unpack''))"

text \<open>\<^verbatim>\<open>[CurrencyPair.get_coingecko_id(base) for base in bases]\<close>.\<close>

fun coingecko_ids :: "string list \<Rightarrow> error + string list" where
  "coingecko_ids [] = Inr []"
| "coingecko_ids (b # bs) =
     (case get_coingecko_id b of
        Inl err \<Rightarrow> Inl err
      | Inr i \<Rightarrow> (case coingecko_ids bs of Inl err \<Rightarrow> Inl err | Inr is \<Rightarrow> Inr (i # is)))"

text \<open>
  \<^verbatim>\<open>value[key]\<close> for a string key: a dict gives the value of the key or raises
  \<^verbatim>\<open>KeyError\<close>; a list or a string takes no string index, and a number, a bool or
  \<^verbatim>\<open>None\<close> takes no index at all, which is a \<^verbatim>\<open>TypeError\<close>.
\<close>

fun getitem :: "json \<Rightarrow> string \<Rightarrow> error + json" where
  "getitem (JObject d) k = (case map_of d k of None \<Rightarrow> Inl (KeyError k) | Some v \<Rightarrow> Inr v)"
| "getitem JNull k = Inl TypeError"
| "getitem (JBool b) k = Inl TypeError"
| "getitem (JNumber x) k = Inl TypeError"
| "getitem (JString w) k = Inl TypeError"
| "getitem (JArray vs) k = Inl TypeError"

text \<open>
  The inner loop over the bases of one group:
  \<^verbatim>\<open>current_prices[pair] = data[get_coingecko_id(base)][quote]\<close>. Whatever value is found
  there becomes the price of the pair; its type is not checked.
\<close>

fun read_group :: "json \<Rightarrow> string \<Rightarrow> string list \<Rightarrow> (string \<times> json) list \<Rightarrow> error + (string \<times> json) list" where
  "read_group data q [] current_prices = Inr current_prices"
| "read_group data q (b # bs) current_prices =
     (case get_coingecko_id b of
        Inl err \<Rightarrow> Inl err
      | Inr i \<Rightarrow>
          (case getitem data i of
             Inl err \<Rightarrow> Inl err
           | Inr quotes \<Rightarrow>
               (case getitem quotes q of
                  Inl err \<Rightarrow> Inl err
                | Inr v \<Rightarrow> read_group data q bs (dict_set (b @ ''/'' @ q) v current_prices))))"

text \<open>
  \<^verbatim>\<open>response.raise_for_status()\<close> raises \<^verbatim>\<open>HTTPError\<close> for the status codes 400 to 599.
\<close>

definition raise_for_status :: "nat \<Rightarrow> error + unit" where
  "raise_for_status status = (if 400 \<le> status \<and> status < 600 then Inl (HTTPError status) else Inr ())"

text \<open>
  One turn of the loop over the groups: the identifiers, the request, the status check,
  the decoding and the reading of the prices. The request is traced when it is sent.
\<close>

definition fetch_group ::
  "env \<Rightarrow> string \<Rightarrow> string list \<Rightarrow> (string \<times> json) list \<Rightarrow> service \<Rightarrow> (error + (string \<times> json) list) \<times> service" where
  "fetch_group e q bases current_prices s =
     (case coingecko_ids bases of
        Inl err \<Rightarrow> (Inl err, s)
      | Inr ids \<Rightarrow>
          (let s1 = s\<lparr>http_requests := http_requests s @ [(join '','' ids, q)]\<rparr>
           in case requests_get e (join '','' ids) q of
                None \<Rightarrow> (Inl RequestException, s1)
              | Some (Response status body) \<Rightarrow>
                  (case raise_for_status status of
                     Inl err \<Rightarrow> (Inl err, s1)
                   | Inr u \<Rightarrow>
                       (case body of
                          None \<Rightarrow> (Inl JSONDecodeError, s1)
                        | Some data \<Rightarrow> (read_group data q bases current_prices, s1)))))"

fun fetch_groups ::
  "env \<Rightarrow> (string \<times> string list) list \<Rightarrow> (string \<times> json) list \<Rightarrow> service \<Rightarrow> (error + (string \<times> json) list) \<times> service" where
  "fetch_groups e [] current_prices s = (Inr current_prices, s)"
| "fetch_groups e ((q, bases) # groups) current_prices s =
     (case fetch_group e q bases current_prices s of
        (Inl err, s') \<Rightarrow> (Inl err, s')
      | (Inr current_prices', s') \<Rightarrow> fetch_groups e groups current_prices' s')"

text \<open>
  The error of a failed turn is logged and raised again, so the caller gets the error and
  no dict.
\<close>

definition fetch_prices :: "env \<Rightarrow> service \<Rightarrow> (error + (string \<times> json) list) \<times> service" where
  "fetch_prices e s =
     (case quote_groups_of PAIRS [] of
        Inl err \<Rightarrow> (Inl err, s)
      | Inr quote_groups \<Rightarrow> fetch_groups e quote_groups [] s)"

section \<open>The routes (src/api/routes.py)\<close>

text \<open>
  \<^verbatim>\<open>Price(pair=pair, price=prices[pair])\<close> gives no \<^verbatim>\<open>timestamp\<close>, a required field of
  the model, so the constructor raises a validation error. Both calls of the history
  route are taken at one reading of the clock.
\<close>

definition route_get_current_price :: "string \<Rightarrow> string \<Rightarrow> env \<Rightarrow> service \<Rightarrow> (error + Price) \<times> service" where
  "route_get_current_price base_currency quote_currency e s =
     (let pr = base_currency @ ''/'' @ quote_currency
      in if pr \<notin> set PAIRS then (Inl (HTTPException 404 ''Pair not found''), s)
         else
           (case fetch_prices e s of
              (Inl err, s') \<Rightarrow> (Inl err, s')
            | (Inr prices, s') \<Rightarrow>
                (case map_of prices pr of
                   None \<Rightarrow> (Inl (KeyError pr), s')
                 | Some v \<Rightarrow> (Inl ValidationError, s'))))"

definition route_get_price_history ::
  "string \<Rightarrow> string \<Rightarrow> env \<Rightarrow> service \<Rightarrow> (error + PriceHistory) \<times> service" where
  "route_get_price_history base_currency quote_currency e s =
     (let pr = base_currency @ ''/'' @ quote_currency
      in if pr \<notin> set PAIRS then (Inl (HTTPException 404 ''Pair not found''), s)
         else
           (case get_price_history pr None e s of
              (Inl err, s') \<Rightarrow> (Inl err, s')
            | (Inr prices, s') \<Rightarrow>
                (case get_volatility_rank pr e s' of
                   (Inl err, s'') \<Rightarrow> (Inl err, s'')
                 | (Inr rank, s'') \<Rightarrow>
                     (Inr \<lparr>ph_pair = pr, ph_prices = prices, volatility_rank = rank\<rparr>, s''))))"

section \<open>Notions used to state the properties\<close>

text \<open>The rows that \<^verbatim>\<open>store_prices\<close> sends for a dict of prices captured at one instant.\<close>

definition batch_rows :: "int \<Rightarrow> (string \<times> real) list \<Rightarrow> price_history_row list" where
  "batch_rows ts prices = map (\<lambda>(p, v). \<lparr>row_pair = p, row_price = v, row_timestamp = ts\<rparr>) prices"

text \<open>
  The three requests of the catalog, in the order they are sent: the quote currency with
  the identifiers of its bases. The parameters of a request are the comma-joined
  identifiers and the quote currency.
\<close>

definition usd_request :: "string \<times> string list" where
  "usd_request = (''usd'', [''bitcoin'', ''ethereum'', ''solana'', ''polkadot'', ''cardano''])"

definition eur_request :: "string \<times> string list" where
  "eur_request = (''eur'', [''ethereum-classic''])"

definition btc_request :: "string \<times> string list" where
  "btc_request = (''btc'', [''ethereum'', ''bancor''])"

definition catalog_requests :: "(string \<times> string list) list" where
  "catalog_requests = [usd_request, eur_request, btc_request]"

definition request_params :: "string \<times> string list \<Rightarrow> string \<times> string" where
  "request_params g = (join '','' (snd g), fst g)"

text \<open>
  The entry of a decoded body for an identifier and a quote currency: it is there when
  the body is an object that holds, under the identifier, an object that holds a value
  under the currency. A body without the entry fails with \<^verbatim>\<open>KeyError\<close> when a key is
  missing and with \<^verbatim>\<open>TypeError\<close> when the body, or what it holds under the identifier,
  is no object.
\<close>

fun price_at :: "json \<Rightarrow> string \<Rightarrow> string \<Rightarrow> json option" where
  "price_at (JObject d) i q = (case map_of d i of Some (JObject d') \<Rightarrow> map_of d' q | _ \<Rightarrow> None)"
| "price_at _ i q = None"

fun entry_error :: "json \<Rightarrow> string \<Rightarrow> string \<Rightarrow> error" where
  "entry_error (JObject d) i q =
     (case map_of d i of None \<Rightarrow> KeyError i | Some (JObject d') \<Rightarrow> KeyError q | Some _ \<Rightarrow> TypeError)"
| "entry_error _ i q = TypeError"

text \<open>
  The failures of a request that the fetch detects, and the error each one raises: the
  network call raises (\<^verbatim>\<open>RequestException\<close>); the status is one of 400 to 599
  (\<^verbatim>\<open>HTTPError\<close>); the body does not decode (\<^verbatim>\<open>JSONDecodeError\<close>); the decoded body lacks
  the entry of one of the requested identifiers (the error of the first such identifier).
  \<open>None\<close> means that the request is served.
\<close>

definition request_error :: "env \<Rightarrow> string \<times> string list \<Rightarrow> error option" where
  "request_error e g =
     (case requests_get e (join '','' (snd g)) (fst g) of
        None \<Rightarrow> Some RequestException
      | Some (Response status body) \<Rightarrow>
          if 400 \<le> status \<and> status < 600 then Some (HTTPError status)
          else (case body of
                  None \<Rightarrow> Some JSONDecodeError
                | Some data \<Rightarrow>
                    (case find (\<lambda>i. price_at data i (fst g) = None) (snd g) of
                       None \<Rightarrow> None
                     | Some i \<Rightarrow> Some (entry_error data i (fst g)))))"

text \<open>What the response to a request holds for an identifier, if anything.\<close>

definition quoted :: "env \<Rightarrow> string \<times> string list \<Rightarrow> string \<Rightarrow> json option" where
  "quoted e g i =
     (case requests_get e (join '','' (snd g)) (fst g) of
        Some (Response status (Some data)) \<Rightarrow> price_at data i (fst g)
      | _ \<Rightarrow> None)"

text \<open>
  Calls of the service, to speak of what happens between two calls: the state after one
  call and after a sequence of calls, each in its own surroundings, and the pairs that a
  sequence passes to \<^verbatim>\<open>get_volatility_rank\<close>.
\<close>

datatype call =
    Store_prices "(string \<times> real) list"
  | Fetch_prices
  | Get_price_history string "int option"
  | Get_volatility_rank string

fun do_call :: "call \<Rightarrow> env \<Rightarrow> service \<Rightarrow> service" where
  "do_call (Store_prices prices) e s = snd (store_prices prices e s)"
| "do_call Fetch_prices e s = snd (fetch_prices e s)"
| "do_call (Get_price_history p hours) e s = snd (get_price_history p hours e s)"
| "do_call (Get_volatility_rank p) e s = snd (get_volatility_rank p e s)"

fun do_calls :: "(call \<times> env) list \<Rightarrow> service \<Rightarrow> service" where
  "do_calls [] s = s"
| "do_calls ((c, e) # calls) s = do_calls calls (do_call c e s)"

fun rank_args :: "(call \<times> env) list \<Rightarrow> string list" where
  "rank_args [] = []"
| "rank_args ((c, e) # calls) =
     (case c of Get_volatility_rank p \<Rightarrow> p # rank_args calls | _ \<Rightarrow> rank_args calls)"

text \<open>The database answers every ranking query of a sequence of calls.\<close>

definition rank_queries_answered :: "(call \<times> env) list \<Rightarrow> bool" where
  "rank_queries_answered calls =
     list_all (\<lambda>(c, e). case c of
                   Get_volatility_rank p \<Rightarrow> \<not> db_fault e Connect \<and> \<not> db_fault e (Select_rank p)
                 | _ \<Rightarrow> True) calls"

text \<open>
  The keys of a cache that were used after the key \<open>p\<close> was last used: the entries behind
  its entry.
\<close>

fun newer :: "'k \<Rightarrow> ('k \<times> 'v) list \<Rightarrow> 'k list" where
  "newer p [] = []"
| "newer p (x # c) = (if fst x = p then map fst c else newer p c)"

text \<open>
  A group of the catalog and its request: the same quote currency, and the identifiers
  of the bases. The dict after the prices of a served group were read into it.
\<close>

definition requests_of :: "string \<times> string list \<Rightarrow> string \<times> string list \<Rightarrow> bool" where
  "requests_of gb g = (fst g = fst gb \<and> coingecko_ids (snd gb) = Inr (snd g))"

definition group_prices ::
  "env \<Rightarrow> (string \<times> string list) \<times> (string \<times> string list) \<Rightarrow> (string \<times> json) list \<Rightarrow> (string \<times> json) list" where
  "group_prices e gr cp =
     fold (\<lambda>(b, i). dict_set (b @ ''/'' @ fst (fst gr)) (the (quoted e (snd gr) i)))
       (zip (snd (fst gr)) (snd (snd gr))) cp"

text \<open>A cache as \<^verbatim>\<open>lru_cache\<close> keeps it: one entry per key, and no more than \<open>maxsize\<close>.\<close>

definition cache_ok :: "('k \<times> 'v) list \<Rightarrow> bool" where
  "cache_ok c = (distinct (map fst c) \<and> length c \<le> maxsize)"

text \<open>
  The number of rows of a ranking input whose standard deviation is strictly above \<open>sd\<close>.
\<close>

definition higher :: "(string \<times> real) list \<Rightarrow> real \<Rightarrow> nat" where
  "higher L sd = length (filter (\<lambda>(q, sd'). sd < sd') L)"

text \<open>
  The ranking in the words of its description. The samples of a pair in the trailing
  24-hour window are the prices of its rows that are at most 86400 seconds old, the row
  that is exactly that old included. The volatility of a pair is the standard deviation
  that the database returns for these samples. The ranked pairs are the pairs of the table
  with at least two samples in the window, and \<open>more_volatile\<close> counts the ranked pairs
  whose volatility is strictly higher than that of a given pair.
\<close>

definition window_samples :: "service \<Rightarrow> env \<Rightarrow> string \<Rightarrow> real list" where
  "window_samples s e p =
     map row_price (filter (\<lambda>r. row_pair r = p \<and> now e - 86400000000 \<le> row_timestamp r) (price_history s))"

definition volatility :: "service \<Rightarrow> env \<Rightarrow> string \<Rightarrow> real" where
  "volatility s e p = db_stddev e (window_samples s e p)"

definition ranked_pairs :: "service \<Rightarrow> env \<Rightarrow> string list" where
  "ranked_pairs s e =
     filter (\<lambda>q. 2 \<le> length (window_samples s e q)) (remdups (map row_pair (price_history s)))"

definition more_volatile :: "service \<Rightarrow> env \<Rightarrow> string \<Rightarrow> nat" where
  "more_volatile s e p = length (filter (\<lambda>q. volatility s e p < volatility s e q) (ranked_pairs s e))"

text \<open>
  The lower bound of a history query: \<^verbatim>\<open>datetime.now(UTC) - timedelta(hours=hours)\<close>, with
  the default of 24 hours when the caller gives none.
\<close>

definition window_start :: "env \<Rightarrow> int option \<Rightarrow> int" where
  "window_start e hours = now e - (case hours of None \<Rightarrow> 24 | Some h \<Rightarrow> h) * us_per_hour"

subsection \<open>Concrete services and surroundings\<close>

text \<open>The sample standard deviation in exact arithmetic, the aggregate of the databases below.\<close>

definition sample_stddev :: "real list \<Rightarrow> real" where
  "sample_stddev xs =
     sqrt (sum_list (map (\<lambda>x. (x - sum_list xs / real (length xs))\<^sup>2) xs) / real (length xs - 1))"

definition new_service :: service where
  "new_service = \<lparr>price_history = [], last_update = None, history_cache = [], rank_cache = [],
                   db_log = [], http_requests = []\<rparr>"

text \<open>A working database at clock reading \<open>t\<close>, and no network.\<close>

definition offline_env :: "int \<Rightarrow> env" where
  "offline_env t = \<lparr>now = t, requests_get = (\<lambda>ids q. None), db_fault = (\<lambda>op. False),
                     db_stddev = sample_stddev\<rparr>"

text \<open>
  Thirty-two calls of \<^verbatim>\<open>get_volatility_rank\<close> for thirty-two different strings, on a
  working database at clock reading \<open>t\<close>.
\<close>

definition thirty_two_ranks :: "int \<Rightarrow> (call \<times> env) list" where
  "thirty_two_ranks t = map (\<lambda>n. (Get_volatility_rank (replicate n CHR ''x''), offline_env t)) [1 ..< 33]"

text \<open>A database that refuses every insert of a row of pair \<open>p\<close>.\<close>

definition rejecting_env :: "int \<Rightarrow> string \<Rightarrow> env" where
  "rejecting_env t p = \<lparr>now = t, requests_get = (\<lambda>ids q. None),
      db_fault = (\<lambda>op. case op of Insert r \<Rightarrow> row_pair r = p | _ \<Rightarrow> False),
      db_stddev = sample_stddev\<rparr>"

definition quotes_json :: json where
  "quotes_json =
     JObject
       [(''bitcoin'', JObject [(''usd'', JNumber 50000)]),
        (''ethereum'', JObject [(''usd'', JNumber 2000), (''btc'', JNumber (1 / 25))]),
        (''solana'', JObject [(''usd'', JNumber 100)]),
        (''polkadot'', JObject [(''usd'', JNumber 5)]),
        (''cardano'', JObject [(''usd'', JNumber (1 / 2))]),
        (''ethereum-classic'', JObject [(''eur'', JNumber 20)]),
        (''bancor'', JObject [(''btc'', JNumber (1 / 100000))])]"

text \<open>An endpoint that answers every request with all the quotes.\<close>

definition online_env :: "int \<Rightarrow> env" where
  "online_env t = \<lparr>now = t, requests_get = (\<lambda>ids q. Some (Response 200 (Some quotes_json))),
                    db_fault = (\<lambda>op. False), db_stddev = sample_stddev\<rparr>"

text \<open>An endpoint that answers the first two requests and refuses the \<open>btc\<close> group with status 429.\<close>

definition throttled_env :: "int \<Rightarrow> env" where
  "throttled_env t = \<lparr>now = t,
      requests_get = (\<lambda>ids q. if q = ''btc'' then Some (Response 429 None)
                               else Some (Response 200 (Some quotes_json))),
      db_fault = (\<lambda>op. False), db_stddev = sample_stddev\<rparr>"

text \<open>
  An endpoint that answers the \<open>btc\<close> group with status 300 and the quotes; an endpoint
  whose answers have \<^verbatim>\<open>null\<close> where the price of bitcoin in dollars should be; and an
  endpoint whose answers lack the quotes of bancor.
\<close>

definition multiple_choices_env :: "int \<Rightarrow> env" where
  "multiple_choices_env t = \<lparr>now = t,
      requests_get = (\<lambda>ids q. if q = ''btc'' then Some (Response 300 (Some quotes_json))
                               else Some (Response 200 (Some quotes_json))),
      db_fault = (\<lambda>op. False), db_stddev = sample_stddev\<rparr>"

definition null_price_env :: "int \<Rightarrow> env" where
  "null_price_env t = \<lparr>now = t,
      requests_get = (\<lambda>ids q. Some (Response 200 (Some (JObject
         [(''bitcoin'', JObject [(''usd'', JNull)]),
          (''ethereum'', JObject [(''usd'', JNumber 2000), (''btc'', JNumber (1 / 25))]),
          (''solana'', JObject [(''usd'', JNumber 100)]),
          (''polkadot'', JObject [(''usd'', JNumber 5)]),
          (''cardano'', JObject [(''usd'', JNumber (1 / 2))]),
          (''ethereum-classic'', JObject [(''eur'', JNumber 20)]),
          (''bancor'', JObject [(''btc'', JNumber (1 / 100000))])])))),
      db_fault = (\<lambda>op. False), db_stddev = sample_stddev\<rparr>"

definition incomplete_env :: "int \<Rightarrow> env" where
  "incomplete_env t = \<lparr>now = t,
      requests_get = (\<lambda>ids q. Some (Response 200 (Some (JObject
         [(''bitcoin'', JObject [(''usd'', JNumber 50000)]),
          (''ethereum'', JObject [(''usd'', JNumber 2000), (''btc'', JNumber (1 / 25))]),
          (''solana'', JObject [(''usd'', JNumber 100)]),
          (''polkadot'', JObject [(''usd'', JNumber 5)]),
          (''cardano'', JObject [(''usd'', JNumber (1 / 2))]),
          (''ethereum-classic'', JObject [(''eur'', JNumber 20)])])))),
      db_fault = (\<lambda>op. False), db_stddev = sample_stddev\<rparr>"

text \<open>
  A service on which the rank of \<open>btc/usd\<close> was asked for at clock reading 0, while the
  table was empty; the same service after two batches were stored one and two seconds
  later; a service on which the history of \<open>btc/usd\<close> was read at clock reading 0, while
  the table was empty; and a service that has only stored the two batches.
\<close>

definition service_ranked_early :: service where
  "service_ranked_early = snd (get_volatility_rank ''btc/usd'' (offline_env 0) new_service)"

definition service_ranked_then_stored :: service where
  "service_ranked_then_stored =
     snd (store_prices [(''btc/usd'', 51000)] (offline_env 2000000)
       (snd (store_prices [(''btc/usd'', 50000)] (offline_env 1000000) service_ranked_early)))"

definition service_read_early :: service where
  "service_read_early = snd (get_price_history ''btc/usd'' None (offline_env 0) new_service)"

definition service_two_samples :: service where
  "service_two_samples =
     snd (store_prices [(''btc/usd'', 51000)] (offline_env 2000000)
       (snd (store_prices [(''btc/usd'', 50000)] (offline_env 1000000) new_service)))"

text \<open>
  A service that has stored three batches: \<open>btc/usd\<close> rose by 1000 each time,
  \<open>eth/usd\<close> stayed, and \<open>sol/usd\<close> has a single sample.
\<close>

definition service_three_pairs :: service where
  "service_three_pairs =
     snd (store_prices [(''btc/usd'', 52000), (''eth/usd'', 2000)] (offline_env 3000000)
       (snd (store_prices [(''btc/usd'', 51000), (''eth/usd'', 2000)] (offline_env 2000000)
         (snd (store_prices [(''btc/usd'', 50000), (''eth/usd'', 2000), (''sol/usd'', 100)]
            (offline_env 1000000) new_service)))))"

text \<open>
  A database whose \<^verbatim>\<open>STDDEV\<close> rounds as \<^verbatim>\<open>float8\<close> arithmetic does. For the prices
  4000000000000000, 4000000000000001 and 4000000000000002 the running sum of the three
  is rounded, and PostgreSQL returns 0.7637626158259733 where the exact value is 1; for
  the prices 1, 2, 3 the exact value 1 is what it returns. And a service that has stored
  three batches in which \<open>eth/usd\<close> goes through 1, 2, 3 and \<open>btc/usd\<close> through these
  three large prices.
\<close>

definition float8_env :: "int \<Rightarrow> env" where
  "float8_env t = \<lparr>now = t, requests_get = (\<lambda>ids q. None), db_fault = (\<lambda>op. False),
      db_stddev = (\<lambda>xs. if xs = [4000000000000000, 4000000000000001, 4000000000000002]
                           then 7637626158259733 / 10000000000000000
                           else sample_stddev xs)\<rparr>"

definition service_large_prices :: service where
  "service_large_prices =
     snd (store_prices [(''eth/usd'', 3), (''btc/usd'', 4000000000000002)] (offline_env 3000000)
       (snd (store_prices [(''eth/usd'', 2), (''btc/usd'', 4000000000000001)] (offline_env 2000000)
         (snd (store_prices [(''eth/usd'', 1), (''btc/usd'', 4000000000000000)]
            (offline_env 1000000) new_service)))))"

text \<open>
  A service that has stored one sample of \<open>btc/usd\<close>, and a service that stored one
  sample at instant 0 and another one hour later.
\<close>

definition service_one_sample :: service where
  "service_one_sample = snd (store_prices [(''btc/usd'', 50000)] (offline_env 1000000) new_service)"

definition service_day_old :: service where
  "service_day_old =
     snd (store_prices [(''btc/usd'', 51000)] (offline_env 3600000000)
       (snd (store_prices [(''btc/usd'', 50000)] (offline_env 0) new_service)))"

section \<open>The catalog\<close>

lemma PAIRS_eq:
  "PAIRS = [''btc/usd'', ''eth/usd'', ''sol/usd'', ''etc/eur'', ''dot/usd'', ''ada/usd'', ''eth/btc'', ''bnt/btc'']"
  by (simp add: PAIRS_def CurrencyPair_str_def)

lemma CoinGeckoId_getitem_name: "CoinGeckoId_getitem (CoinGeckoId_name m) = Some m"
  by (cases m) (simp_all add: CoinGeckoId_getitem_def CoinGeckoId_members_def)

lemma CoinGeckoId_getitem_None: "(\<forall>m. n \<noteq> CoinGeckoId_name m) \<Longrightarrow> CoinGeckoId_getitem n = None"
  by (auto simp add: CoinGeckoId_getitem_def find_None_iff)

lemma get_coingecko_id_simps:
  "get_coingecko_id ''btc'' = Inr ''bitcoin''"
  "get_coingecko_id ''eth'' = Inr ''ethereum''"
  "get_coingecko_id ''sol'' = Inr ''solana''"
  "get_coingecko_id ''etc'' = Inr ''ethereum-classic''"
  "get_coingecko_id ''dot'' = Inr ''polkadot''"
  "get_coingecko_id ''ada'' = Inr ''cardano''"
  "get_coingecko_id ''bnt'' = Inr ''bancor''"
  by (simp_all add: get_coingecko_id_def CoinGeckoId_getitem_def CoinGeckoId_members_def
      upper_def upper_char_def)

text \<open>
  Claim C7. \<^verbatim>\<open>get_coingecko_id\<close> depends on its argument alone. A symbol whose upper-case
  form is the name of a member of \<^verbatim>\<open>CoinGeckoId\<close> gets that member's identifier; for every
  other symbol the call fails with \<^verbatim>\<open>ValueError("Unsupported currency: ...")\<close>.
\<close>

theorem get_coingecko_id_lookup:
  "(upper currency = CoinGeckoId_name m \<longrightarrow> get_coingecko_id currency = Inr (CoinGeckoId_value m)) \<and>
   ((\<forall>m'. upper currency \<noteq> CoinGeckoId_name m') \<longrightarrow>
      get_coingecko_id currency = Inl (ValueError (''Unsupported currency: '' @ currency)))"
  by (simp add: get_coingecko_id_def CoinGeckoId_getitem_name CoinGeckoId_getitem_None)

theorem get_coingecko_id_lookup_witness:
  "upper ''btc'' = CoinGeckoId_name Id_BTC \<and> get_coingecko_id ''btc'' = Inr ''bitcoin'' \<and>
   (\<forall>m'. upper ''usd'' \<noteq> CoinGeckoId_name m') \<and>
   get_coingecko_id ''usd'' = Inl (ValueError ''Unsupported currency: usd'')"
proof -
  have h1: "upper ''btc'' = CoinGeckoId_name Id_BTC"
    by (simp add: upper_def upper_char_def)
  have h2: "\<forall>m'. upper ''usd'' \<noteq> CoinGeckoId_name m'"
  proof
    fix m' show "upper ''usd'' \<noteq> CoinGeckoId_name m'"
      by (cases m') (simp_all add: upper_def upper_char_def)
  qed
  from h1 h2 get_coingecko_id_lookup [of "''btc''" Id_BTC] get_coingecko_id_lookup [of "''usd''" Id_BTC]
  show ?thesis by simp
qed

section \<open>The routes\<close>

text \<open>
  Claim C8. When \<^verbatim>\<open>"{base}/{quote}"\<close> is not in the catalog, the current-price route and
  the history route both raise \<^verbatim>\<open>HTTPException(404)\<close> and leave the service as it was: no
  database operation is attempted and no request is sent.
\<close>

theorem unknown_pair_not_found:
  assumes "base_currency @ ''/'' @ quote_currency \<notin> set PAIRS"
  shows "route_get_current_price base_currency quote_currency e s =
           (Inl (HTTPException 404 ''Pair not found''), s) \<and>
         route_get_price_history base_currency quote_currency e s =
           (Inl (HTTPException 404 ''Pair not found''), s) \<and>
         db_log (snd (route_get_current_price base_currency quote_currency e s)) = db_log s \<and>
         http_requests (snd (route_get_current_price base_currency quote_currency e s)) = http_requests s \<and>
         db_log (snd (route_get_price_history base_currency quote_currency e s)) = db_log s \<and>
         http_requests (snd (route_get_price_history base_currency quote_currency e s)) = http_requests s"
  using assms by (simp add: route_get_current_price_def route_get_price_history_def)

theorem unknown_pair_not_found_witness:
  "''xyz'' @ ''/'' @ ''usd'' \<notin> set PAIRS \<and>
   route_get_current_price ''xyz'' ''usd'' (online_env 0) new_service =
     (Inl (HTTPException 404 ''Pair not found''), new_service) \<and>
   route_get_price_history ''xyz'' ''usd'' (online_env 0) new_service =
     (Inl (HTTPException 404 ''Pair not found''), new_service)"
proof -
  have h: "''xyz'' @ ''/'' @ ''usd'' \<notin> set PAIRS" by (simp add: PAIRS_eq)
  from h unknown_pair_not_found [OF h, of "online_env 0" new_service] show ?thesis by simp
qed

section \<open>store\_prices\<close>

lemma insert_prices_committed: "committed (snd (insert_prices e ts items c)) = committed c"
  by (induction items arbitrary: c) (auto simp: conn_execute_insert_def)

lemma insert_prices_ok:
  "\<forall>r \<in> set (batch_rows ts items). \<not> db_fault e (Insert r) \<Longrightarrow>
   insert_prices e ts items c =
     (Inr (), c\<lparr>pending := pending c @ batch_rows ts items,
                statements := statements c @ map Insert (batch_rows ts items)\<rparr>)"
  by (induction items arbitrary: c) (auto simp: conn_execute_insert_def batch_rows_def)

lemma insert_prices_fault:
  "\<exists>r \<in> set (batch_rows ts items). db_fault e (Insert r) \<Longrightarrow>
   fst (insert_prices e ts items c) = Inl SQLAlchemyError"
proof (induction items arbitrary: c)
  case Nil
  then show ?case by (simp add: batch_rows_def)
next
  case (Cons item items)
  obtain p v where item: "item = (p, v)" by (cases item)
  show ?case
  proof (cases "db_fault e (Insert \<lparr>row_pair = p, row_price = v, row_timestamp = ts\<rparr>)")
    case True
    then show ?thesis by (simp add: item conn_execute_insert_def)
  next
    case False
    with Cons.prems have "\<exists>r \<in> set (batch_rows ts items). db_fault e (Insert r)"
      by (auto simp: item batch_rows_def)
    then show ?thesis
      using False by (simp add: item conn_execute_insert_def Cons.IH)
  qed
qed

lemma store_prices_last_update: "last_update (snd (store_prices prices e s)) = Some (now e)"
  by (simp add: store_prices_def Let_def conn_close_def split: prod.splits sum.splits)

lemma store_prices_caches:
  "history_cache (snd (store_prices prices e s)) = history_cache s \<and>
   rank_cache (snd (store_prices prices e s)) = rank_cache s"
  by (simp add: store_prices_def Let_def conn_close_def split: prod.splits sum.splits)

lemma store_prices_rows:
  "price_history (snd (store_prices prices e s)) =
     (if fst (store_prices prices e s) = Inr () then price_history s @ batch_rows (now e) prices
      else price_history s)"
proof (cases "\<forall>r \<in> set (batch_rows (now e) prices). \<not> db_fault e (Insert r)")
  case True
  show ?thesis
    by (simp add: store_prices_def Let_def insert_prices_ok [OF True] conn_commit_def
        conn_close_def engine_connect_def)
next
  case False
  then have f: "\<exists>r \<in> set (batch_rows (now e) prices). db_fault e (Insert r)" by simp
  obtain r c1
    where ip: "insert_prices e (now e) prices (engine_connect (s\<lparr>last_update := Some (now e)\<rparr>)) = (r, c1)"
    by (cases "insert_prices e (now e) prices (engine_connect (s\<lparr>last_update := Some (now e)\<rparr>))")
  from insert_prices_fault [OF f, of "engine_connect (s\<lparr>last_update := Some (now e)\<rparr>)"] ip
  have r: "r = Inl SQLAlchemyError" by simp
  from insert_prices_committed [of e "now e" prices "engine_connect (s\<lparr>last_update := Some (now e)\<rparr>)"] ip
  have c: "committed c1 = price_history s" by (simp add: engine_connect_def)
  show ?thesis
    by (simp add: store_prices_def Let_def ip r c conn_close_def)
qed

lemma store_prices_ok:
  assumes "\<not> db_fault e Connect"
    and "\<forall>r \<in> set (batch_rows (now e) prices). \<not> db_fault e (Insert r)"
    and "\<not> db_fault e Commit"
  shows "fst (store_prices prices e s) = Inr ()"
  using assms(1,3) by (simp add: store_prices_def Let_def insert_prices_ok [OF assms(2)] conn_commit_def)

text \<open>
  Claim C4. Every row of a batch carries the one timestamp read at the start, and there is
  one row per item of the dict, sent on one connection between its opening and one
  commit. When the database works the batch joins the table as a whole. When the
  connection, any insert or the commit fails, the caller gets the database error and the
  table is as before. At every point of the insert loop the table that readers see is the
  one from before the call.
\<close>

theorem store_prices_atomic:
  "(\<not> db_fault e Connect \<and> (\<forall>r \<in> set (batch_rows (now e) prices). \<not> db_fault e (Insert r)) \<and>
    \<not> db_fault e Commit \<longrightarrow>
      fst (store_prices prices e s) = Inr () \<and>
      price_history (snd (store_prices prices e s)) = price_history s @ batch_rows (now e) prices \<and>
      db_log (snd (store_prices prices e s)) =
        db_log s @ [Connect] @ map Insert (batch_rows (now e) prices) @ [Commit]) \<and>
   (db_fault e Connect \<or> (\<exists>r \<in> set (batch_rows (now e) prices). db_fault e (Insert r)) \<or>
    db_fault e Commit \<longrightarrow>
      fst (store_prices prices e s) = Inl SQLAlchemyError \<and>
      price_history (snd (store_prices prices e s)) = price_history s) \<and>
   (\<forall>k. committed (snd (insert_prices e (now e) (take k prices)
                          (engine_connect (s\<lparr>last_update := Some (now e)\<rparr>)))) = price_history s) \<and>
   map row_pair (batch_rows (now e) prices) = map fst prices \<and>
   map row_price (batch_rows (now e) prices) = map snd prices \<and>
   (\<forall>r \<in> set (batch_rows (now e) prices). row_timestamp r = now e)"
proof (intro conjI impI allI)
  assume ok: "\<not> db_fault e Connect \<and> (\<forall>r \<in> set (batch_rows (now e) prices). \<not> db_fault e (Insert r)) \<and>
    \<not> db_fault e Commit"
  then have ins: "\<forall>r \<in> set (batch_rows (now e) prices). \<not> db_fault e (Insert r)" by simp
  show "fst (store_prices prices e s) = Inr ()"
    using ok by (simp add: store_prices_ok)
  then show "price_history (snd (store_prices prices e s)) = price_history s @ batch_rows (now e) prices"
    by (simp add: store_prices_rows)
  show "db_log (snd (store_prices prices e s)) =
        db_log s @ [Connect] @ map Insert (batch_rows (now e) prices) @ [Commit]"
    using ok by (simp add: store_prices_def Let_def insert_prices_ok [OF ins] conn_commit_def
        conn_close_def engine_connect_def)
next
  assume bad: "db_fault e Connect \<or> (\<exists>r \<in> set (batch_rows (now e) prices). db_fault e (Insert r)) \<or>
    db_fault e Commit"
  show f: "fst (store_prices prices e s) = Inl SQLAlchemyError"
  proof (cases "\<exists>r \<in> set (batch_rows (now e) prices). db_fault e (Insert r)")
    case True
    obtain r c1
      where ip: "insert_prices e (now e) prices (engine_connect (s\<lparr>last_update := Some (now e)\<rparr>)) = (r, c1)"
      by (cases "insert_prices e (now e) prices (engine_connect (s\<lparr>last_update := Some (now e)\<rparr>))")
    from insert_prices_fault [OF True, of "engine_connect (s\<lparr>last_update := Some (now e)\<rparr>)"] ip
    have "r = Inl SQLAlchemyError" by simp
    then show ?thesis by (simp add: store_prices_def Let_def ip)
  next
    case False
    then have ins: "\<forall>r \<in> set (batch_rows (now e) prices). \<not> db_fault e (Insert r)" by simp
    from bad False have "db_fault e Connect \<or> db_fault e Commit" by blast
    then show ?thesis
      by (auto simp: store_prices_def Let_def insert_prices_ok [OF ins] conn_commit_def)
  qed
  show "price_history (snd (store_prices prices e s)) = price_history s"
    by (simp add: store_prices_rows f)
next
  fix k
  show "committed (snd (insert_prices e (now e) (take k prices)
                          (engine_connect (s\<lparr>last_update := Some (now e)\<rparr>)))) = price_history s"
    by (simp add: insert_prices_committed engine_connect_def)
next
  show "map row_pair (batch_rows (now e) prices) = map fst prices"
    by (induction prices) (auto simp: batch_rows_def)
  show "map row_price (batch_rows (now e) prices) = map snd prices"
    by (induction prices) (auto simp: batch_rows_def)
  show "\<forall>r \<in> set (batch_rows (now e) prices). row_timestamp r = now e"
    by (auto simp: batch_rows_def)
qed

theorem store_prices_atomic_witness:
  "fst (store_prices [(''btc/usd'', 50000), (''eth/usd'', 2000)] (offline_env 5) new_service) = Inr () \<and>
   price_history (snd (store_prices [(''btc/usd'', 50000), (''eth/usd'', 2000)] (offline_env 5) new_service)) =
     [\<lparr>row_pair = ''btc/usd'', row_price = 50000, row_timestamp = 5\<rparr>,
      \<lparr>row_pair = ''eth/usd'', row_price = 2000, row_timestamp = 5\<rparr>] \<and>
   fst (store_prices [(''btc/usd'', 50000), (''eth/usd'', 2000), (''sol/usd'', 100)]
          (rejecting_env 5 ''eth/usd'') new_service) = Inl SQLAlchemyError \<and>
   price_history (snd (store_prices [(''btc/usd'', 50000), (''eth/usd'', 2000), (''sol/usd'', 100)]
          (rejecting_env 5 ''eth/usd'') new_service)) = []"
  using store_prices_atomic [of "offline_env 5" "[(''btc/usd'', 50000), (''eth/usd'', 2000)]" new_service]
    store_prices_atomic [of "rejecting_env 5 ''eth/usd''"
      "[(''btc/usd'', 50000), (''eth/usd'', 2000), (''sol/usd'', 100)]" new_service]
  by (simp add: offline_env_def rejecting_env_def new_service_def batch_rows_def)

text \<open>
  Claim C9. \<^verbatim>\<open>_last_update\<close> is assigned before the connection is opened, so a call that
  ends in a database error has still moved \<^verbatim>\<open>_last_update\<close> to the new timestamp, while no
  row of the batch is in the table.
\<close>

theorem store_prices_failure_keeps_last_update:
  "fst (store_prices prices e s) = Inl err \<Longrightarrow>
   last_update (snd (store_prices prices e s)) = Some (now e) \<and>
   price_history (snd (store_prices prices e s)) = price_history s"
  by (simp add: store_prices_last_update store_prices_rows)

theorem store_prices_failure_keeps_last_update_witness:
  "fst (store_prices [(''btc/usd'', 50000), (''eth/usd'', 2000)] (rejecting_env 7 ''eth/usd'') new_service)
     = Inl SQLAlchemyError \<and>
   last_update (snd (store_prices [(''btc/usd'', 50000), (''eth/usd'', 2000)]
     (rejecting_env 7 ''eth/usd'') new_service)) = Some 7 \<and>
   price_history (snd (store_prices [(''btc/usd'', 50000), (''eth/usd'', 2000)]
     (rejecting_env 7 ''eth/usd'') new_service)) = []"
proof -
  have h: "fst (store_prices [(''btc/usd'', 50000), (''eth/usd'', 2000)] (rejecting_env 7 ''eth/usd'') new_service)
     = Inl SQLAlchemyError"
    by (simp add: store_prices_def rejecting_env_def new_service_def engine_connect_def
        conn_execute_insert_def)
  from h store_prices_failure_keeps_last_update [OF h] show ?thesis
    by (simp add: rejecting_env_def new_service_def)
qed

section \<open>fetch\_prices\<close>

lemma quote_groups_PAIRS:
  "quote_groups_of PAIRS [] =
     Inr [(''usd'', [''btc'', ''eth'', ''sol'', ''dot'', ''ada'']), (''eur'', [''etc'']), (''btc'', [''eth'', ''bnt''])]"
  unfolding PAIRS_eq by code_simp

lemma getitem_twice:
  "(case getitem data i of Inl err \<Rightarrow> Inl err | Inr quotes \<Rightarrow> getitem quotes q) =
   (case price_at data i q of None \<Rightarrow> Inl (entry_error data i q) | Some v \<Rightarrow> Inr v)"
proof (cases data)
  case (JObject d)
  show ?thesis
  proof (cases "map_of d i")
    case None
    then show ?thesis by (simp add: JObject)
  next
    case (Some quotes)
    then show ?thesis by (cases quotes) (simp_all add: JObject split: option.splits)
  qed
qed simp_all

lemma read_group_step:
  assumes "get_coingecko_id b = Inr i"
  shows "read_group data q (b # bs) cp =
     (case price_at data i q of
        None \<Rightarrow> Inl (entry_error data i q)
      | Some v \<Rightarrow> read_group data q bs (dict_set (b @ ''/'' @ q) v cp))"
  using getitem_twice [where data = data and i = i and q = q]
  by (auto simp: assms split: sum.splits option.splits)

lemma coingecko_ids_Cons:
  "coingecko_ids (b # bs) = Inr ids \<Longrightarrow>
   \<exists>i is. ids = i # is \<and> get_coingecko_id b = Inr i \<and> coingecko_ids bs = Inr is"
  by (auto split: sum.splits)

lemma read_group_served:
  assumes "coingecko_ids bases = Inr ids"
    and "find (\<lambda>i. price_at data i q = None) ids = None"
  shows "read_group data q bases cp =
     Inr (fold (\<lambda>(b, i). dict_set (b @ ''/'' @ q) (the (price_at data i q))) (zip bases ids) cp)"
  using assms
proof (induction bases arbitrary: ids cp)
  case Nil
  then show ?case by simp
next
  case (Cons b bs)
  from coingecko_ids_Cons [OF Cons.prems(1)] obtain i "is" where
    ids: "ids = i # is" and b: "get_coingecko_id b = Inr i" and bs: "coingecko_ids bs = Inr is"
    by blast
  from Cons.prems(2) ids obtain v where v: "price_at data i q = Some v"
    and rest: "find (\<lambda>i. price_at data i q = None) is = None"
    by (auto split: if_splits)
  show ?case
    by (simp add: read_group_step [OF b] v Cons.IH [OF bs rest] ids del: read_group.simps)
qed

lemma read_group_error:
  assumes "coingecko_ids bases = Inr ids"
    and "find (\<lambda>i. price_at data i q = None) ids = Some j"
  shows "read_group data q bases cp = Inl (entry_error data j q)"
  using assms
proof (induction bases arbitrary: ids cp)
  case Nil
  then show ?case by simp
next
  case (Cons b bs)
  from coingecko_ids_Cons [OF Cons.prems(1)] obtain i "is" where
    ids: "ids = i # is" and b: "get_coingecko_id b = Inr i" and bs: "coingecko_ids bs = Inr is"
    by blast
  show ?case
  proof (cases "price_at data i q")
    case None
    with Cons.prems(2) ids have "j = i" by simp
    with None show ?thesis by (simp add: read_group_step [OF b] del: read_group.simps)
  next
    case (Some v)
    with Cons.prems(2) ids have "find (\<lambda>i. price_at data i q = None) is = Some j" by simp
    from Cons.IH [OF bs this] Some show ?thesis by (simp add: read_group_step [OF b] del: read_group.simps)
  qed
qed

lemma fetch_group_error:
  assumes "requests_of gb g" and "request_error e g = Some err"
  shows "fetch_group e (fst gb) (snd gb) cp s =
     (Inl err, s\<lparr>http_requests := http_requests s @ [request_params g]\<rparr>)"
proof -
  from assms(1) have ids: "coingecko_ids (snd gb) = Inr (snd g)" and q: "fst g = fst gb"
    by (simp_all add: requests_of_def)
  show ?thesis
  proof (cases "requests_get e (join '','' (snd g)) (fst g)")
    case None
    with assms(2) show ?thesis
      by (simp add: fetch_group_def ids q [symmetric] request_error_def request_params_def)
  next
    case (Some resp)
    obtain status body where resp: "resp = Response status body" by (cases resp)
    show ?thesis
    proof (cases "400 \<le> status \<and> status < 600")
      case True
      with assms(2) Some resp show ?thesis
        by (simp add: fetch_group_def ids q [symmetric] request_error_def request_params_def
            raise_for_status_def)
    next
      case False
      show ?thesis
      proof (cases body)
        case None
        with assms(2) Some resp False show ?thesis
          by (simp add: fetch_group_def ids q [symmetric] request_error_def request_params_def
              raise_for_status_def)
      next
        case (Some data)
        with assms(2) \<open>requests_get e (join '','' (snd g)) (fst g) = Some resp\<close> resp False
        obtain j where j: "find (\<lambda>i. price_at data i (fst g) = None) (snd g) = Some j"
          and err: "err = entry_error data j (fst g)"
          by (auto simp: request_error_def split: option.splits)
        from read_group_error [OF ids j, where cp = cp] err
        have "read_group data (fst g) (snd gb) cp = Inl err" by simp
        with \<open>requests_get e (join '','' (snd g)) (fst g) = Some resp\<close> resp False Some show ?thesis
          by (auto simp: fetch_group_def ids q [symmetric] request_params_def raise_for_status_def)
      qed
    qed
  qed
qed

lemma fetch_group_served:
  assumes "requests_of gb g" and "request_error e g = None"
  shows "fetch_group e (fst gb) (snd gb) cp s =
     (Inr (group_prices e (gb, g) cp), s\<lparr>http_requests := http_requests s @ [request_params g]\<rparr>)"
proof -
  from assms(1) have ids: "coingecko_ids (snd gb) = Inr (snd g)" and q: "fst g = fst gb"
    by (simp_all add: requests_of_def)
  from assms(2) obtain status data where
    resp: "requests_get e (join '','' (snd g)) (fst g) = Some (Response status (Some data))"
    and st: "\<not> (400 \<le> status \<and> status < 600)"
    and all: "find (\<lambda>i. price_at data i (fst g) = None) (snd g) = None"
    by (auto simp: request_error_def split: option.splits http_response.splits if_splits)
  have qd: "quoted e g i = price_at data i (fst g)" for i
    by (simp add: quoted_def resp)
  from read_group_served [OF ids all, where cp = cp]
  have "read_group data (fst g) (snd gb) cp = Inr (group_prices e (gb, g) cp)"
    by (simp add: group_prices_def qd q)
  with resp st show ?thesis
    by (simp add: fetch_group_def ids q [symmetric] request_params_def raise_for_status_def)
qed

lemma fetch_groups_abort:
  assumes "list_all2 requests_of groups reqs"
    and "reqs = before @ g # after"
    and "\<forall>g' \<in> set before. request_error e g' = None"
    and "request_error e g = Some err"
  shows "fetch_groups e groups cp s =
     (Inl err, s\<lparr>http_requests := http_requests s @ map request_params (before @ [g])\<rparr>)"
  using assms(1-3)
proof (induction before arbitrary: groups reqs cp s)
  case Nil
  then obtain gb groups' where groups: "groups = gb # groups'" and r: "requests_of gb g"
    by (auto simp: list_all2_Cons2)
  obtain q bases where gb: "gb = (q, bases)" by (cases gb)
  from fetch_group_error [OF r assms(4), of cp s] show ?case
    by (simp add: groups gb)
next
  case (Cons g0 before)
  then obtain gb groups' where groups: "groups = gb # groups'" and r: "requests_of gb g0"
    and rest: "list_all2 requests_of groups' (before @ g # after)"
    by (auto simp: list_all2_Cons2)
  obtain q bases where gb: "gb = (q, bases)" by (cases gb)
  from Cons.prems(3) have ok0: "request_error e g0 = None"
    and ok: "\<forall>g' \<in> set before. request_error e g' = None" by simp_all
  from fetch_group_served [OF r ok0, of cp s]
  have fg: "fetch_group e q bases cp s =
     (Inr (group_prices e (gb, g0) cp), s\<lparr>http_requests := http_requests s @ [request_params g0]\<rparr>)"
    by (simp add: gb)
  from Cons.IH [OF rest refl ok, of "group_prices e (gb, g0) cp"
      "s\<lparr>http_requests := http_requests s @ [request_params g0]\<rparr>"]
  show ?case by (simp add: groups gb fg)
qed

lemma fetch_groups_served:
  assumes "list_all2 requests_of groups reqs"
    and "\<forall>g \<in> set reqs. request_error e g = None"
  shows "fetch_groups e groups cp s =
     (Inr (fold (group_prices e) (zip groups reqs) cp),
      s\<lparr>http_requests := http_requests s @ map request_params reqs\<rparr>)"
  using assms
proof (induction groups reqs arbitrary: cp s rule: list_all2_induct)
  case Nil
  then show ?case by simp
next
  case (Cons gb groups g reqs)
  obtain q bases where gb: "gb = (q, bases)" by (cases gb)
  from Cons.prems have ok0: "request_error e g = None"
    and ok: "\<forall>g' \<in> set reqs. request_error e g' = None" by simp_all
  from fetch_group_served [OF Cons.hyps(1) ok0, of cp s]
  have fg: "fetch_group e q bases cp s =
     (Inr (group_prices e (gb, g) cp), s\<lparr>http_requests := http_requests s @ [request_params g]\<rparr>)"
    by (simp add: gb)
  from Cons.IH [OF ok, of "group_prices e (gb, g) cp"
      "s\<lparr>http_requests := http_requests s @ [request_params g]\<rparr>"]
  show ?case by (simp add: gb fg)
qed

lemma first_failure:
  "(\<forall>g \<in> set reqs. request_error e g = None) \<or>
   (\<exists>before g after err. reqs = before @ g # after \<and>
      (\<forall>g' \<in> set before. request_error e g' = None) \<and> request_error e g = Some err)"
proof (induction reqs)
  case Nil
  then show ?case by simp
next
  case (Cons g0 reqs)
  show ?case
  proof (cases "request_error e g0")
    case (Some err)
    then have "g0 # reqs = [] @ g0 # reqs \<and>
      (\<forall>g' \<in> set []. request_error e g' = None) \<and> request_error e g0 = Some err" by simp
    then show ?thesis by blast
  next
    case None
    from Cons.IH show ?thesis
    proof
      assume "\<forall>g \<in> set reqs. request_error e g = None"
      with None show ?thesis by simp
    next
      assume "\<exists>before g after err. reqs = before @ g # after \<and>
        (\<forall>g' \<in> set before. request_error e g' = None) \<and> request_error e g = Some err"
      then obtain before g after err where "reqs = before @ g # after"
        and "\<forall>g' \<in> set before. request_error e g' = None" and "request_error e g = Some err"
        by blast
      with None have "g0 # reqs = (g0 # before) @ g # after \<and>
        (\<forall>g' \<in> set (g0 # before). request_error e g' = None) \<and> request_error e g = Some err"
        by simp
      then show ?thesis by blast
    qed
  qed
qed

lemma catalog_requests_of:
  "list_all2 requests_of
     [(''usd'', [''btc'', ''eth'', ''sol'', ''dot'', ''ada'']), (''eur'', [''etc'']), (''btc'', [''eth'', ''bnt''])]
     catalog_requests"
  by (simp add: catalog_requests_def usd_request_def eur_request_def btc_request_def requests_of_def
      get_coingecko_id_simps)

lemma fetch_prices_abort:
  assumes "catalog_requests = before @ g # after"
    and "\<forall>g' \<in> set before. request_error e g' = None"
    and "request_error e g = Some err"
  shows "fetch_prices e s =
     (Inl err, s\<lparr>http_requests := http_requests s @ map request_params (before @ [g])\<rparr>)"
  using fetch_groups_abort [OF catalog_requests_of assms, of "[]" s]
  by (simp add: fetch_prices_def quote_groups_PAIRS del: fetch_groups.simps)

lemma fetch_prices_served:
  assumes "\<forall>g \<in> set catalog_requests. request_error e g = None"
  shows "fetch_prices e s =
     (Inr [(''btc/usd'', the (quoted e usd_request ''bitcoin'')),
           (''eth/usd'', the (quoted e usd_request ''ethereum'')),
           (''sol/usd'', the (quoted e usd_request ''solana'')),
           (''dot/usd'', the (quoted e usd_request ''polkadot'')),
           (''ada/usd'', the (quoted e usd_request ''cardano'')),
           (''etc/eur'', the (quoted e eur_request ''ethereum-classic'')),
           (''eth/btc'', the (quoted e btc_request ''ethereum'')),
           (''bnt/btc'', the (quoted e btc_request ''bancor''))],
      s\<lparr>http_requests := http_requests s @ map request_params catalog_requests\<rparr>)"
proof -
  have "fold (group_prices e)
      (zip [(''usd'', [''btc'', ''eth'', ''sol'', ''dot'', ''ada'']), (''eur'', [''etc'']), (''btc'', [''eth'', ''bnt''])]
        catalog_requests) [] =
      [(''btc/usd'', the (quoted e usd_request ''bitcoin'')),
           (''eth/usd'', the (quoted e usd_request ''ethereum'')),
           (''sol/usd'', the (quoted e usd_request ''solana'')),
           (''dot/usd'', the (quoted e usd_request ''polkadot'')),
           (''ada/usd'', the (quoted e usd_request ''cardano'')),
           (''etc/eur'', the (quoted e eur_request ''ethereum-classic'')),
           (''eth/btc'', the (quoted e btc_request ''ethereum'')),
           (''bnt/btc'', the (quoted e btc_request ''bancor''))]"
    by (simp add: catalog_requests_def group_prices_def usd_request_def eur_request_def btc_request_def)
  with fetch_groups_served [OF catalog_requests_of assms, of "[]" s]
  show ?thesis
    by (simp add: fetch_prices_def quote_groups_PAIRS del: fetch_groups.simps)
qed

lemma served_quoted:
  assumes "request_error e g = None" and "i \<in> set (snd g)"
  shows "\<exists>v. quoted e g i = Some v"
proof -
  from assms(1) obtain status data where
    resp: "requests_get e (join '','' (snd g)) (fst g) = Some (Response status (Some data))"
    and all: "find (\<lambda>i. price_at data i (fst g) = None) (snd g) = None"
    by (auto simp: request_error_def split: option.splits http_response.splits if_splits)
  from all assms(2) have "price_at data i (fst g) \<noteq> None"
    by (auto simp: find_None_iff)
  then show ?thesis by (auto simp: quoted_def resp)
qed

lemma fetch_prices_state:
  "\<exists>reqs. snd (fetch_prices e s) = s\<lparr>http_requests := http_requests s @ reqs\<rparr>"
proof -
  from first_failure [of catalog_requests e] show ?thesis
  proof
    assume "\<forall>g \<in> set catalog_requests. request_error e g = None"
    from fetch_prices_served [OF this, of s] show ?thesis by auto
  next
    assume "\<exists>before g after err. catalog_requests = before @ g # after \<and>
      (\<forall>g' \<in> set before. request_error e g' = None) \<and> request_error e g = Some err"
    then obtain before g after err where "catalog_requests = before @ g # after"
      and "\<forall>g' \<in> set before. request_error e g' = None" and "request_error e g = Some err"
      by blast
    from fetch_prices_abort [OF this, of s] show ?thesis by auto
  qed
qed

text \<open>
  Claim C3, as the code has it. A request fails, for the fetch, when the network call
  raises, when the status is one of 400 to 599, when the body does not decode, or when
  the decoded body lacks the entry of a requested identifier. If the request of any group
  of the catalog fails in one of these ways, \<^verbatim>\<open>fetch_prices\<close> raises the error of a failing
  request and returns no dict, and the table and the trace of database operations are as
  before. More exactly, it raises the error of the first request that fails and has sent
  the requests up to that one and no other; nothing else of the service has changed.
\<close>

theorem fetch_prices_aborts:
  "(g \<in> set catalog_requests \<and> request_error e g \<noteq> None \<longrightarrow>
      (\<exists>g' \<in> set catalog_requests. \<exists>err.
         request_error e g' = Some err \<and> fst (fetch_prices e s) = Inl err) \<and>
      price_history (snd (fetch_prices e s)) = price_history s \<and>
      db_log (snd (fetch_prices e s)) = db_log s) \<and>
   (catalog_requests = before @ g # after \<and>
    (\<forall>g' \<in> set before. request_error e g' = None) \<and> request_error e g = Some err \<longrightarrow>
      fetch_prices e s =
        (Inl err, s\<lparr>http_requests := http_requests s @ map request_params (before @ [g])\<rparr>))"
proof (intro conjI impI)
  assume a: "g \<in> set catalog_requests \<and> request_error e g \<noteq> None"
  then have "\<not> (\<forall>g \<in> set catalog_requests. request_error e g = None)" by auto
  with first_failure [of catalog_requests e]
  obtain before' g' after' err' where c: "catalog_requests = before' @ g' # after'"
    and ok: "\<forall>g'' \<in> set before'. request_error e g'' = None"
    and bad: "request_error e g' = Some err'"
    by blast
  from fetch_prices_abort [OF c ok bad, of s] have "fst (fetch_prices e s) = Inl err'" by simp
  moreover have "g' \<in> set catalog_requests" unfolding c by simp
  ultimately show "\<exists>g' \<in> set catalog_requests. \<exists>err.
         request_error e g' = Some err \<and> fst (fetch_prices e s) = Inl err"
    using bad by blast
  from fetch_prices_state [of e s]
  obtain reqs where "snd (fetch_prices e s) = s\<lparr>http_requests := http_requests s @ reqs\<rparr>" by blast
  then show "price_history (snd (fetch_prices e s)) = price_history s"
    and "db_log (snd (fetch_prices e s)) = db_log s" by simp_all
next
  assume "catalog_requests = before @ g # after \<and>
    (\<forall>g' \<in> set before. request_error e g' = None) \<and> request_error e g = Some err"
  then show "fetch_prices e s =
        (Inl err, s\<lparr>http_requests := http_requests s @ map request_params (before @ [g])\<rparr>)"
    using fetch_prices_abort by blast
qed

lemma throttled_request_errors:
  "request_error (throttled_env t) usd_request = None"
  "request_error (throttled_env t) eur_request = None"
  "request_error (throttled_env t) btc_request = Some (HTTPError 429)"
  by (simp_all add: request_error_def throttled_env_def usd_request_def eur_request_def
      btc_request_def quotes_json_def)

lemma incomplete_request_errors:
  "request_error (incomplete_env t) usd_request = None"
  "request_error (incomplete_env t) eur_request = None"
  "request_error (incomplete_env t) btc_request = Some (KeyError ''bancor'')"
  by (simp_all add: request_error_def incomplete_env_def usd_request_def eur_request_def
      btc_request_def)

theorem fetch_prices_aborts_witness:
  "catalog_requests = [usd_request, eur_request] @ btc_request # [] \<and>
   request_error (throttled_env 0) usd_request = None \<and>
   request_error (throttled_env 0) eur_request = None \<and>
   request_error (throttled_env 0) btc_request = Some (HTTPError 429) \<and>
   fetch_prices (throttled_env 0) new_service =
     (Inl (HTTPError 429),
      new_service\<lparr>http_requests :=
        [(''bitcoin,ethereum,solana,polkadot,cardano'', ''usd''),
         (''ethereum-classic'', ''eur''),
         (''ethereum,bancor'', ''btc'')]\<rparr>) \<and>
   request_error (incomplete_env 0) btc_request = Some (KeyError ''bancor'') \<and>
   fst (fetch_prices (incomplete_env 0) new_service) = Inl (KeyError ''bancor'') \<and>
   price_history (snd (fetch_prices (incomplete_env 0) new_service)) = []"
proof -
  have c: "catalog_requests = [usd_request, eur_request] @ btc_request # []"
    by (simp add: catalog_requests_def)
  have p: "map request_params ([usd_request, eur_request] @ [btc_request]) =
     [(''bitcoin,ethereum,solana,polkadot,cardano'', ''usd''),
      (''ethereum-classic'', ''eur''),
      (''ethereum,bancor'', ''btc'')]"
    by (simp add: request_params_def usd_request_def eur_request_def btc_request_def)
  from fetch_prices_aborts [of btc_request "throttled_env 0" new_service "[usd_request, eur_request]"
      "[]" "HTTPError 429"]
    fetch_prices_aborts [of btc_request "incomplete_env 0" new_service "[usd_request, eur_request]"
      "[]" "KeyError ''bancor''"]
    c p throttled_request_errors [of 0] incomplete_request_errors [of 0]
  show ?thesis by (simp add: new_service_def)
qed

text \<open>
  The claim as stated fails for the failures that the fetch does not detect. A status
  that is no success and is outside 400 to 599 passes \<^verbatim>\<open>raise_for_status\<close>: with status 300
  for the \<open>btc\<close> group the fetch returns the whole dict. And a body that decodes is
  never checked for what it holds: with \<^verbatim>\<open>null\<close> for a price the fetch returns a dict
  with \<^verbatim>\<open>None\<close> as the price of \<open>btc/usd\<close>.
\<close>

theorem undetected_failure_counterexample:
  "requests_get (multiple_choices_env 0) ''ethereum,bancor'' ''btc'' = Some (Response 300 (Some quotes_json)) \<and>
   fst (fetch_prices (multiple_choices_env 0) new_service) =
     Inr [(''btc/usd'', JNumber 50000), (''eth/usd'', JNumber 2000), (''sol/usd'', JNumber 100),
          (''dot/usd'', JNumber 5), (''ada/usd'', JNumber (1 / 2)), (''etc/eur'', JNumber 20),
          (''eth/btc'', JNumber (1 / 25)), (''bnt/btc'', JNumber (1 / 100000))] \<and>
   fst (fetch_prices (null_price_env 0) new_service) =
     Inr [(''btc/usd'', JNull), (''eth/usd'', JNumber 2000), (''sol/usd'', JNumber 100),
          (''dot/usd'', JNumber 5), (''ada/usd'', JNumber (1 / 2)), (''etc/eur'', JNumber 20),
          (''eth/btc'', JNumber (1 / 25)), (''bnt/btc'', JNumber (1 / 100000))]"
proof -
  have a: "\<forall>g \<in> set catalog_requests. request_error (multiple_choices_env 0) g = None"
    by (simp add: catalog_requests_def request_error_def multiple_choices_env_def usd_request_def
        eur_request_def btc_request_def quotes_json_def)
  have b: "\<forall>g \<in> set catalog_requests. request_error (null_price_env 0) g = None"
    by (simp add: catalog_requests_def request_error_def null_price_env_def usd_request_def
        eur_request_def btc_request_def)
  have "requests_get (multiple_choices_env 0) ''ethereum,bancor'' ''btc'' = Some (Response 300 (Some quotes_json))"
    by (simp add: multiple_choices_env_def)
  moreover have "fst (fetch_prices (multiple_choices_env 0) new_service) =
     Inr [(''btc/usd'', JNumber 50000), (''eth/usd'', JNumber 2000), (''sol/usd'', JNumber 100),
          (''dot/usd'', JNumber 5), (''ada/usd'', JNumber (1 / 2)), (''etc/eur'', JNumber 20),
          (''eth/btc'', JNumber (1 / 25)), (''bnt/btc'', JNumber (1 / 100000))]"
    using fetch_prices_served [OF a, of new_service]
    by (simp add: quoted_def multiple_choices_env_def usd_request_def
        eur_request_def btc_request_def quotes_json_def)
  moreover have "fst (fetch_prices (null_price_env 0) new_service) =
     Inr [(''btc/usd'', JNull), (''eth/usd'', JNumber 2000), (''sol/usd'', JNumber 100),
          (''dot/usd'', JNumber 5), (''ada/usd'', JNumber (1 / 2)), (''etc/eur'', JNumber 20),
          (''eth/btc'', JNumber (1 / 25)), (''bnt/btc'', JNumber (1 / 100000))]"
    using fetch_prices_served [OF b, of new_service]
    by (simp add: quoted_def null_price_env_def usd_request_def
        eur_request_def btc_request_def)
  ultimately show ?thesis by simp
qed

lemma fetch_prices_requests_prefix:
  "\<exists>k \<le> 3. http_requests (snd (fetch_prices e s)) =
     http_requests s @ take k (map request_params catalog_requests)"
proof -
  from first_failure [of catalog_requests e] show ?thesis
  proof
    assume "\<forall>g \<in> set catalog_requests. request_error e g = None"
    from fetch_prices_served [OF this, of s]
    have "http_requests (snd (fetch_prices e s)) =
      http_requests s @ take 3 (map request_params catalog_requests)"
      by (simp add: catalog_requests_def)
    then show ?thesis by blast
  next
    assume "\<exists>before g after err. catalog_requests = before @ g # after \<and>
      (\<forall>g' \<in> set before. request_error e g' = None) \<and> request_error e g = Some err"
    then obtain before g after err where c: "catalog_requests = before @ g # after"
      and "\<forall>g' \<in> set before. request_error e g' = None" and "request_error e g = Some err"
      by blast
    from fetch_prices_abort [OF this, of s]
    have "http_requests (snd (fetch_prices e s)) =
      http_requests s @ take (Suc (length before)) (map request_params catalog_requests)"
      by (simp add: c)
    moreover from arg_cong [OF c, of length] have "Suc (length before) \<le> 3"
      by (simp add: catalog_requests_def)
    ultimately show ?thesis by blast
  qed
qed

lemma fetch_prices_success:
  assumes "fst (fetch_prices e s) = Inr prices"
  shows "(\<forall>g \<in> set catalog_requests. request_error e g = None) \<and>
         fetch_prices e s =
           (Inr [(''btc/usd'', the (quoted e usd_request ''bitcoin'')),
                 (''eth/usd'', the (quoted e usd_request ''ethereum'')),
                 (''sol/usd'', the (quoted e usd_request ''solana'')),
                 (''dot/usd'', the (quoted e usd_request ''polkadot'')),
                 (''ada/usd'', the (quoted e usd_request ''cardano'')),
                 (''etc/eur'', the (quoted e eur_request ''ethereum-classic'')),
                 (''eth/btc'', the (quoted e btc_request ''ethereum'')),
                 (''bnt/btc'', the (quoted e btc_request ''bancor''))],
            s\<lparr>http_requests := http_requests s @ map request_params catalog_requests\<rparr>)"
proof -
  from first_failure [of catalog_requests e]
  have ok: "\<forall>g \<in> set catalog_requests. request_error e g = None"
  proof
    assume "\<forall>g \<in> set catalog_requests. request_error e g = None"
    then show ?thesis .
  next
    assume "\<exists>before g after err. catalog_requests = before @ g # after \<and>
      (\<forall>g' \<in> set before. request_error e g' = None) \<and> request_error e g = Some err"
    then obtain before g after err where "catalog_requests = before @ g # after"
      and "\<forall>g' \<in> set before. request_error e g' = None" and "request_error e g = Some err"
      by blast
    from fetch_prices_abort [OF this, of s] assms show ?thesis by simp
  qed
  with fetch_prices_served [OF ok, of s] show ?thesis by simp
qed

lemma catalog_params:
  "map request_params catalog_requests =
     [(''bitcoin,ethereum,solana,polkadot,cardano'', ''usd''),
      (''ethereum-classic'', ''eur''),
      (''ethereum,bancor'', ''btc'')]"
  by (simp add: catalog_requests_def request_params_def usd_request_def eur_request_def btc_request_def)

text \<open>
  Claim C6. The catalog falls into three groups, one per quote currency, and each group
  has one request, with the comma-joined identifiers of all its bases. A call of
  \<^verbatim>\<open>fetch_prices\<close> that returns has sent exactly these three requests, and its dict has
  the pairs of the catalog as keys, group by group, each with the value that the response
  to the request of its group holds for its base. The call returns whenever the three
  requests are served. A call that ends in an error has sent an initial part of the
  same three requests.
\<close>

theorem fetch_prices_one_request_per_quote:
  "quote_groups_of PAIRS [] =
     Inr [(''usd'', [''btc'', ''eth'', ''sol'', ''dot'', ''ada'']), (''eur'', [''etc'']),
          (''btc'', [''eth'', ''bnt''])] \<and>
   map request_params catalog_requests =
     [(''bitcoin,ethereum,solana,polkadot,cardano'', ''usd''),
      (''ethereum-classic'', ''eur''),
      (''ethereum,bancor'', ''btc'')] \<and>
   (\<exists>k \<le> 3. http_requests (snd (fetch_prices e s)) =
      http_requests s @ take k (map request_params catalog_requests)) \<and>
   (fst (fetch_prices e s) = Inr prices \<longrightarrow>
      http_requests (snd (fetch_prices e s)) = http_requests s @ map request_params catalog_requests \<and>
      map fst prices =
        [''btc/usd'', ''eth/usd'', ''sol/usd'', ''dot/usd'', ''ada/usd'', ''etc/eur'', ''eth/btc'', ''bnt/btc''] \<and>
      set (map fst prices) = set PAIRS \<and>
      map (\<lambda>pv. Some (snd pv)) prices =
        [quoted e usd_request ''bitcoin'', quoted e usd_request ''ethereum'',
         quoted e usd_request ''solana'', quoted e usd_request ''polkadot'',
         quoted e usd_request ''cardano'', quoted e eur_request ''ethereum-classic'',
         quoted e btc_request ''ethereum'', quoted e btc_request ''bancor'']) \<and>
   ((\<forall>g \<in> set catalog_requests. request_error e g = None) \<longrightarrow>
      (\<exists>prices. fst (fetch_prices e s) = Inr prices))"
proof (intro conjI impI)
  show "quote_groups_of PAIRS [] =
     Inr [(''usd'', [''btc'', ''eth'', ''sol'', ''dot'', ''ada'']), (''eur'', [''etc'']),
          (''btc'', [''eth'', ''bnt''])]"
    by (rule quote_groups_PAIRS)
  show "map request_params catalog_requests =
     [(''bitcoin,ethereum,solana,polkadot,cardano'', ''usd''),
      (''ethereum-classic'', ''eur''),
      (''ethereum,bancor'', ''btc'')]"
    by (rule catalog_params)
  show "\<exists>k \<le> 3. http_requests (snd (fetch_prices e s)) =
      http_requests s @ take k (map request_params catalog_requests)"
    by (rule fetch_prices_requests_prefix)
next
  assume a: "fst (fetch_prices e s) = Inr prices"
  note r = fetch_prices_success [OF a]
  from r have ok: "\<forall>g \<in> set catalog_requests. request_error e g = None" by blast
  from r a have prices: "prices =
     [(''btc/usd'', the (quoted e usd_request ''bitcoin'')),
      (''eth/usd'', the (quoted e usd_request ''ethereum'')),
      (''sol/usd'', the (quoted e usd_request ''solana'')),
      (''dot/usd'', the (quoted e usd_request ''polkadot'')),
      (''ada/usd'', the (quoted e usd_request ''cardano'')),
      (''etc/eur'', the (quoted e eur_request ''ethereum-classic'')),
      (''eth/btc'', the (quoted e btc_request ''ethereum'')),
      (''bnt/btc'', the (quoted e btc_request ''bancor''))]"
    by simp
  from r show "http_requests (snd (fetch_prices e s)) = http_requests s @ map request_params catalog_requests"
    by simp
  show "map fst prices =
        [''btc/usd'', ''eth/usd'', ''sol/usd'', ''dot/usd'', ''ada/usd'', ''etc/eur'', ''eth/btc'', ''bnt/btc'']"
    by (simp add: prices)
  show "set (map fst prices) = set PAIRS"
    by (simp add: prices PAIRS_eq insert_commute)
  have q: "Some (the (quoted e g i)) = quoted e g i" if "g \<in> set catalog_requests" and "i \<in> set (snd g)" for g i
    using served_quoted [of e g i] ok that by auto
  show "map (\<lambda>pv. Some (snd pv)) prices =
        [quoted e usd_request ''bitcoin'', quoted e usd_request ''ethereum'',
         quoted e usd_request ''solana'', quoted e usd_request ''polkadot'',
         quoted e usd_request ''cardano'', quoted e eur_request ''ethereum-classic'',
         quoted e btc_request ''ethereum'', quoted e btc_request ''bancor'']"
    by (simp add: prices q catalog_requests_def)
       (simp add: q catalog_requests_def usd_request_def eur_request_def btc_request_def)
next
  assume "\<forall>g \<in> set catalog_requests. request_error e g = None"
  from fetch_prices_served [OF this, of s] show "\<exists>prices. fst (fetch_prices e s) = Inr prices"
    by simp
qed

theorem fetch_prices_one_request_per_quote_witness:
  "fst (fetch_prices (online_env 0) new_service) =
     Inr [(''btc/usd'', JNumber 50000), (''eth/usd'', JNumber 2000), (''sol/usd'', JNumber 100),
          (''dot/usd'', JNumber 5), (''ada/usd'', JNumber (1 / 2)), (''etc/eur'', JNumber 20),
          (''eth/btc'', JNumber (1 / 25)), (''bnt/btc'', JNumber (1 / 100000))] \<and>
   http_requests (snd (fetch_prices (online_env 0) new_service)) =
     [(''bitcoin,ethereum,solana,polkadot,cardano'', ''usd''),
      (''ethereum-classic'', ''eur''),
      (''ethereum,bancor'', ''btc'')] \<and>
   quoted (online_env 0) usd_request ''bitcoin'' = Some (JNumber 50000) \<and>
   quoted (online_env 0) btc_request ''bancor'' = Some (JNumber (1 / 100000))"
proof -
  have ok: "\<forall>g \<in> set catalog_requests. request_error (online_env 0) g = None"
    by (simp add: catalog_requests_def request_error_def online_env_def usd_request_def
        eur_request_def btc_request_def quotes_json_def)
  have h: "fst (fetch_prices (online_env 0) new_service) =
     Inr [(''btc/usd'', JNumber 50000), (''eth/usd'', JNumber 2000), (''sol/usd'', JNumber 100),
          (''dot/usd'', JNumber 5), (''ada/usd'', JNumber (1 / 2)), (''etc/eur'', JNumber 20),
          (''eth/btc'', JNumber (1 / 25)), (''bnt/btc'', JNumber (1 / 100000))]"
    using fetch_prices_served [OF ok, of new_service]
    by (simp add: quoted_def online_env_def usd_request_def
        eur_request_def btc_request_def quotes_json_def)
  have q: "quoted (online_env 0) usd_request ''bitcoin'' = Some (JNumber 50000)"
    "quoted (online_env 0) btc_request ''bancor'' = Some (JNumber (1 / 100000))"
    by (simp_all add: quoted_def online_env_def usd_request_def btc_request_def quotes_json_def)
  from h q ok fetch_prices_one_request_per_quote [of "online_env 0" new_service]
  show ?thesis by (simp add: new_service_def catalog_params)
qed

section \<open>The lru\_cache\<close>

lemma map_of_filter_key:
  "map_of (filter (\<lambda>e. P (fst e)) c) k = (if P k then map_of c k else None)"
  by (induction c) auto

lemma lru_lookup_touch: "lru_lookup k (lru_touch k' c) = lru_lookup k c"
proof (cases "k = k'")
  case True
  have "map_of (filter (\<lambda>e. fst e \<noteq> k') c) k' = None"
    using map_of_filter_key [of "\<lambda>x. x \<noteq> k'" c k'] by simp
  moreover have "map_of (filter (\<lambda>e. fst e = k') c) k' = map_of c k'"
    using map_of_filter_key [of "\<lambda>x. x = k'" c k'] by simp
  ultimately show ?thesis
    by (simp add: True lru_lookup_def lru_touch_def map_add_def)
next
  case False
  have "map_of (filter (\<lambda>e. fst e \<noteq> k') c) k = map_of c k"
    using map_of_filter_key [of "\<lambda>x. x \<noteq> k'" c k] False by simp
  moreover have "map_of (filter (\<lambda>e. fst e = k') c) k = None"
    using map_of_filter_key [of "\<lambda>x. x = k'" c k] False by simp
  ultimately show ?thesis
    by (simp add: lru_lookup_def lru_touch_def map_add_def split: option.splits)
qed

lemma map_of_tl_None: "map_of c k = None \<Longrightarrow> map_of (tl c) k = None"
  by (cases c) (auto split: if_splits)

lemma lru_lookup_Nil: "lru_lookup k [] = None"
  by (simp add: lru_lookup_def)

lemma lru_lookup_store:
  "lru_lookup k c = None \<Longrightarrow> lru_lookup k (lru_store k v c) = Some v"
  by (simp add: lru_lookup_def lru_store_def map_of_tl_None map_add_def)

lemma in_keys_iff: "k \<in> fst ` set c \<longleftrightarrow> map_of c k \<noteq> None"
  by (simp add: map_of_eq_None_iff)

lemma newer_append_in: "map_of c p \<noteq> None \<Longrightarrow> newer p (c @ d) = newer p c @ map fst d"
  by (induction c) (auto split: if_splits)

lemma newer_append_out: "map_of c p = None \<Longrightarrow> newer p (c @ d) = newer p d"
  by (induction c) (auto split: if_splits)

lemma newer_filter:
  "q \<noteq> p \<Longrightarrow> newer p (filter (\<lambda>x. fst x \<noteq> q) c) = filter (\<lambda>k. k \<noteq> q) (newer p c)"
  by (induction c) (auto simp: filter_map comp_def)

lemma newer_tl: "c \<noteq> [] \<Longrightarrow> fst (hd c) \<noteq> p \<Longrightarrow> newer p (tl c) = newer p c"
  by (cases c) auto

lemma newer_hd: "c \<noteq> [] \<Longrightarrow> fst (hd c) = p \<Longrightarrow> newer p c = map fst (tl c)"
  by (cases c) auto

lemma length_newer: "map_of c p \<noteq> None \<Longrightarrow> Suc (length (newer p c)) \<le> length c"
  by (induction c) (auto split: if_splits)

lemma distinct_newer: "distinct (map fst c) \<Longrightarrow> distinct (newer p c)"
  by (induction c) auto

lemma filter_key_single:
  "distinct (map fst c) \<Longrightarrow> map_of c p = Some r \<Longrightarrow> filter (\<lambda>x. fst x = p) c = [(p, r)]"
proof (induction c)
  case Nil
  then show ?case by simp
next
  case (Cons x c)
  show ?case
  proof (cases "fst x = p")
    case True
    with Cons.prems have "x = (p, r)" by (cases x) simp
    moreover from True Cons.prems have "p \<notin> fst ` set c" by simp
    then have "filter (\<lambda>x. fst x = p) c = []"
      by (force simp: filter_empty_conv image_iff)
    ultimately show ?thesis by simp
  next
    case False
    with Cons show ?thesis by (cases x) auto
  qed
qed

lemma touch_ok: "cache_ok c \<Longrightarrow> cache_ok (lru_touch q c)"
proof -
  assume ok: "cache_ok c"
  have "length (lru_touch q c) = length c"
    using sum_length_filter_compl [of "\<lambda>e. fst e = q" c] by (simp add: lru_touch_def)
  moreover have "distinct (map fst (lru_touch q c))"
    using ok by (auto simp: cache_ok_def lru_touch_def distinct_map_filter)
  ultimately show ?thesis using ok by (simp add: cache_ok_def)
qed

lemma store_ok: "cache_ok c \<Longrightarrow> cache_ok (lru_store q v c)"
proof -
  assume ok: "cache_ok c"
  show ?thesis
  proof (cases "map_of c q")
    case (Some w)
    with ok show ?thesis by (simp add: lru_store_def)
  next
    case None
    then have q: "q \<notin> fst ` set c" by (simp add: in_keys_iff)
    show ?thesis
    proof (cases "length c < maxsize")
      case True
      with ok q None show ?thesis by (simp add: lru_store_def cache_ok_def)
    next
      case False
      from q have "q \<notin> fst ` set (tl c)" by (cases c) auto
      moreover from ok have "distinct (map fst (tl c))" by (cases c) (auto simp: cache_ok_def)
      ultimately show ?thesis using ok None False
        by (cases c) (auto simp: lru_store_def cache_ok_def maxsize_def)
    qed
  qed
qed

lemma touch_newer_self:
  assumes "distinct (map fst c)" and "map_of c p = Some r"
  shows "newer p (lru_touch p c) = []"
proof -
  have "map_of (filter (\<lambda>e. fst e \<noteq> p) c) p = None"
    using map_of_filter_key [of "\<lambda>x. x \<noteq> p" c p] by simp
  then show ?thesis
    by (simp add: lru_touch_def newer_append_out filter_key_single [OF assms])
qed

lemma touch_newer_other:
  assumes "q \<noteq> p" and "map_of c p \<noteq> None" and "map_of c q \<noteq> None"
  shows "set (newer p (lru_touch q c)) = insert q (set (newer p c))"
proof -
  from assms(1,2) have "map_of (filter (\<lambda>e. fst e \<noteq> q) c) p \<noteq> None"
    using map_of_filter_key [of "\<lambda>x. x \<noteq> q" c p] by simp
  then have "newer p (lru_touch q c) =
      filter (\<lambda>k. k \<noteq> q) (newer p c) @ map fst (filter (\<lambda>e. fst e = q) c)"
    by (simp add: lru_touch_def newer_append_in newer_filter [OF assms(1)])
  moreover have "set (map fst (filter (\<lambda>e. fst e = q) c)) = {q}"
  proof -
    from assms(3) obtain w where "map_of c q = Some w" by auto
    then have "(q, w) \<in> set c" by (rule map_of_SomeD)
    then show ?thesis by force
  qed
  ultimately show ?thesis by auto
qed

lemma store_newer_other:
  assumes "q \<noteq> p" and "map_of c p \<noteq> None" and "map_of c q = None"
    and "length c < maxsize \<or> fst (hd c) \<noteq> p"
  shows "map_of (lru_store q v c) p = map_of c p \<and>
         newer p (lru_store q v c) = newer p c @ [q]"
proof (cases "length c < maxsize")
  case True
  with assms(1,2,3) show ?thesis
    by (auto simp: lru_store_def newer_append_in map_add_def split: option.splits)
next
  case False
  with assms(4) have hd: "fst (hd c) \<noteq> p" by simp
  from assms(2) have ne: "c \<noteq> []" by auto
  from hd ne assms(2) have m: "map_of (tl c) p = map_of c p" by (cases c) auto
  with assms(2) have "map_of (tl c) p \<noteq> None" by simp
  then have "newer p (tl c @ [(q, v)]) = newer p c @ [q]"
    by (simp add: newer_append_in newer_tl [OF ne hd])
  with False assms(1,3) m assms(2) show ?thesis
    by (auto simp: lru_store_def map_add_def split: option.splits)
qed

lemma store_newer_self:
  assumes "map_of c p = None"
  shows "newer p (lru_store p v c) = []"
proof -
  from assms have "map_of (tl c) p = None" by (rule map_of_tl_None)
  with assms show ?thesis
    by (simp add: lru_store_def newer_append_out)
qed

lemma store_absent:
  assumes "q \<noteq> p" and "map_of c p = None"
  shows "map_of (lru_store q v c) p = None"
  using assms by (auto simp: lru_store_def map_add_def map_of_tl_None)

lemma store_evicts:
  assumes "distinct (map fst c)" and "c \<noteq> []" and "fst (hd c) = p" and "q \<noteq> p"
    and "map_of c q = None" and "\<not> length c < maxsize"
  shows "map_of (lru_store q v c) p = None"
proof -
  from assms(1-3) have "p \<notin> fst ` set (tl c)" by (cases c) auto
  then have "map_of (tl c) p = None" by (simp add: in_keys_iff)
  with assms(4-6) show ?thesis by (simp add: lru_store_def map_add_def)
qed

lemma get_volatility_rank_hit:
  "lru_lookup p (rank_cache s) = Some r \<Longrightarrow>
   fst (get_volatility_rank p e s) = Inr r \<and>
   db_log (snd (get_volatility_rank p e s)) = db_log s \<and>
   price_history (snd (get_volatility_rank p e s)) = price_history s"
  by (simp add: get_volatility_rank_def)

lemma get_volatility_rank_caches:
  "get_volatility_rank p e s = (Inr r, s') \<Longrightarrow> lru_lookup p (rank_cache s') = Some r"
  by (auto simp: get_volatility_rank_def get_volatility_rank_body_def lru_lookup_touch lru_lookup_store
      split: option.splits if_splits)

lemma get_volatility_rank_miss:
  assumes "lru_lookup p (rank_cache s) = None"
    and "\<not> db_fault e Connect" and "\<not> db_fault e (Select_rank p)"
  shows "get_volatility_rank p e s =
     (Inr (select_rank (db_stddev e) (price_history s) (now e) p),
      s\<lparr>db_log := db_log s @ [Connect, Select_rank p],
        rank_cache := lru_store p (select_rank (db_stddev e) (price_history s) (now e) p) (rank_cache s)\<rparr>)"
  using assms by (simp add: get_volatility_rank_def get_volatility_rank_body_def)

lemma rank_cache_after_rank:
  "rank_cache (snd (get_volatility_rank q e s)) =
     (case map_of (rank_cache s) q of
        Some v \<Rightarrow> lru_touch q (rank_cache s)
      | None \<Rightarrow>
          if db_fault e Connect \<or> db_fault e (Select_rank q) then rank_cache s
          else lru_store q (select_rank (db_stddev e) (price_history s) (now e) q) (rank_cache s))"
  by (simp add: get_volatility_rank_def get_volatility_rank_body_def lru_lookup_def split: option.splits)

lemma rank_cache_after_history:
  "rank_cache (snd (get_price_history p hours e s)) = rank_cache s"
  by (simp add: get_price_history_def get_price_history_body_def Let_def split: option.splits)

lemma rank_cache_after_fetch: "rank_cache (snd (fetch_prices e s)) = rank_cache s"
proof -
  from fetch_prices_state [of e s]
  obtain reqs where "snd (fetch_prices e s) = s\<lparr>http_requests := http_requests s @ reqs\<rparr>" by blast
  then show ?thesis by simp
qed

lemma rank_call_ok:
  "cache_ok (rank_cache s) \<Longrightarrow> cache_ok (rank_cache (snd (get_volatility_rank q e s)))"
  by (simp add: rank_cache_after_rank touch_ok store_ok split: option.splits)

lemma first_rank_call:
  assumes "cache_ok (rank_cache s)" and "get_volatility_rank p e s = (Inr r, s1)"
  shows "cache_ok (rank_cache s1) \<and> map_of (rank_cache s1) p = Some r \<and> newer p (rank_cache s1) = []"
proof -
  from rank_call_ok [OF assms(1), of p e] assms(2) have ok: "cache_ok (rank_cache s1)" by simp
  from get_volatility_rank_caches [OF assms(2)] have m: "map_of (rank_cache s1) p = Some r"
    by (simp add: lru_lookup_def)
  have c: "rank_cache s1 = rank_cache (snd (get_volatility_rank p e s))" by (simp add: assms(2))
  have "newer p (rank_cache s1) = []"
  proof (cases "map_of (rank_cache s) p")
    case None
    with assms(2) have "\<not> (db_fault e Connect \<or> db_fault e (Select_rank p))"
      by (auto simp: get_volatility_rank_def get_volatility_rank_body_def lru_lookup_def
          split: if_splits)
    with None show ?thesis by (simp add: c rank_cache_after_rank store_newer_self)
  next
    case (Some v)
    from assms(1) have "distinct (map fst (rank_cache s))" by (simp add: cache_ok_def)
    from touch_newer_self [OF this Some] Some show ?thesis
      by (simp add: c rank_cache_after_rank)
  qed
  with ok m show ?thesis by simp
qed

lemma rank_call_keeps:
  assumes ok: "cache_ok (rank_cache s)"
    and pres: "map_of (rank_cache s) p = Some r"
    and sub: "set (newer p (rank_cache s)) \<subseteq> K"
    and fin: "finite K"
    and bound: "card (K \<union> ({q} - {p})) < 32"
  shows "map_of (rank_cache (snd (get_volatility_rank q e s))) p = Some r \<and>
         set (newer p (rank_cache (snd (get_volatility_rank q e s)))) \<subseteq> K \<union> ({q} - {p})"
proof (cases "q = p")
  case True
  from ok have d: "distinct (map fst (rank_cache s))" by (simp add: cache_ok_def)
  from lru_lookup_touch [of p p "rank_cache s"] pres
  have "map_of (lru_touch p (rank_cache s)) p = Some r" by (simp add: lru_lookup_def)
  with touch_newer_self [OF d pres] pres show ?thesis
    by (simp add: True rank_cache_after_rank)
next
  case False
  let ?c = "rank_cache s"
  show ?thesis
  proof (cases "map_of ?c q")
    case (Some w)
    from lru_lookup_touch [of p q ?c] pres
    have "map_of (lru_touch q ?c) p = Some r" by (simp add: lru_lookup_def)
    moreover from touch_newer_other [OF False, of ?c] pres Some
    have "set (newer p (lru_touch q ?c)) = insert q (set (newer p ?c))" by simp
    ultimately show ?thesis using sub False Some
      by (auto simp: rank_cache_after_rank)
  next
    case None
    show ?thesis
    proof (cases "db_fault e Connect \<or> db_fault e (Select_rank q)")
      case True
      with None pres sub show ?thesis by (auto simp: rank_cache_after_rank)
    next
      case fine: False
      have room: "length ?c < maxsize \<or> fst (hd ?c) \<noteq> p"
      proof (rule ccontr)
        assume "\<not> (length ?c < maxsize \<or> fst (hd ?c) \<noteq> p)"
        then have full: "\<not> length ?c < maxsize" and hd: "fst (hd ?c) = p" by simp_all
        from pres have ne: "?c \<noteq> []" by auto
        from ok full have len: "length ?c = 32" by (simp add: cache_ok_def maxsize_def)
        from newer_hd [OF ne hd] have nw: "newer p ?c = map fst (tl ?c)" .
        then have l31: "length (newer p ?c) = 31" using len by simp
        from ok have "distinct (newer p ?c)" by (simp add: cache_ok_def distinct_newer)
        with l31 have c31: "card (set (newer p ?c)) = 31" by (simp add: distinct_card)
        from None have "q \<notin> fst ` set ?c" by (simp add: in_keys_iff)
        with nw ne have qn: "q \<notin> set (newer p ?c)" by (cases ?c) auto
        with c31 have "card (insert q (set (newer p ?c))) = 32" by simp
        moreover from sub False have "insert q (set (newer p ?c)) \<subseteq> K \<union> ({q} - {p})" by auto
        moreover from fin have "finite (K \<union> ({q} - {p}))" by simp
        ultimately have "32 \<le> card (K \<union> ({q} - {p}))" by (metis card_mono)
        with bound show False by simp
      qed
      from pres have "map_of ?c p \<noteq> None" by simp
      from store_newer_other [OF False this None room] pres sub False None fine
      show ?thesis by (auto simp: rank_cache_after_rank)
    qed
  qed
qed

lemma cached_rank_survives:
  assumes "cache_ok (rank_cache s)"
    and "map_of (rank_cache s) p = Some r"
    and "set (newer p (rank_cache s)) \<subseteq> K"
    and "finite K"
    and "card (K \<union> (set (rank_args calls) - {p})) < 32"
  shows "map_of (rank_cache (do_calls calls s)) p = Some r"
  using assms
proof (induction calls arbitrary: s K)
  case Nil
  then show ?case by simp
next
  case (Cons ce calls)
  obtain c e where ce: "ce = (c, e)" by (cases ce)
  show ?case
  proof (cases c)
    case (Get_volatility_rank q)
    let ?s' = "snd (get_volatility_rank q e s)"
    let ?K' = "K \<union> ({q} - {p})"
    have eq: "?K' \<union> (set (rank_args calls) - {p}) = K \<union> (set (rank_args (ce # calls)) - {p})"
      by (auto simp: ce Get_volatility_rank)
    with Cons.prems(5) have b: "card (?K' \<union> (set (rank_args calls) - {p})) < 32" by simp
    from Cons.prems(4) have fin: "finite (?K' \<union> (set (rank_args calls) - {p}))" by simp
    have "card ?K' \<le> card (?K' \<union> (set (rank_args calls) - {p}))"
      by (rule card_mono [OF fin]) blast
    with b have b1: "card ?K' < 32" by simp
    from rank_call_keeps [OF Cons.prems(1-4) b1, of e]
    have m': "map_of (rank_cache ?s') p = Some r" and n': "set (newer p (rank_cache ?s')) \<subseteq> ?K'"
      by simp_all
    have ok': "cache_ok (rank_cache ?s')" using Cons.prems(1) by (rule rank_call_ok)
    from Cons.prems(4) have f': "finite ?K'" by simp
    from Cons.IH [OF ok' m' n' f' b] show ?thesis by (simp add: ce Get_volatility_rank)
  next
    case (Store_prices prices)
    have "rank_cache (do_call c e s) = rank_cache s"
      by (simp add: Store_prices store_prices_caches rank_cache_after_fetch rank_cache_after_history)
    moreover have "set (rank_args (ce # calls)) = set (rank_args calls)" by (simp add: ce Store_prices)
    ultimately have "map_of (rank_cache (do_calls calls (do_call c e s))) p = Some r"
      using Cons.prems by (intro Cons.IH [of "do_call c e s" K]) simp_all
    then show ?thesis by (simp add: ce)
  next
    case Fetch_prices
    have "rank_cache (do_call c e s) = rank_cache s"
      by (simp add: Fetch_prices store_prices_caches rank_cache_after_fetch rank_cache_after_history)
    moreover have "set (rank_args (ce # calls)) = set (rank_args calls)" by (simp add: ce Fetch_prices)
    ultimately have "map_of (rank_cache (do_calls calls (do_call c e s))) p = Some r"
      using Cons.prems by (intro Cons.IH [of "do_call c e s" K]) simp_all
    then show ?thesis by (simp add: ce)
  next
    case (Get_price_history q hours)
    have "rank_cache (do_call c e s) = rank_cache s"
      by (simp add: Get_price_history store_prices_caches rank_cache_after_fetch rank_cache_after_history)
    moreover have "set (rank_args (ce # calls)) = set (rank_args calls)" by (simp add: ce Get_price_history)
    ultimately have "map_of (rank_cache (do_calls calls (do_call c e s))) p = Some r"
      using Cons.prems by (intro Cons.IH [of "do_call c e s" K]) simp_all
    then show ?thesis by (simp add: ce)
  qed
qed

lemma rank_call_pushes:
  assumes ok: "cache_ok (rank_cache s)"
    and other: "q \<noteq> p"
    and answered: "\<not> db_fault e Connect \<and> \<not> db_fault e (Select_rank q)"
    and inv: "map_of (rank_cache s) p \<noteq> None \<longrightarrow> U \<subseteq> set (newer p (rank_cache s))"
  shows "map_of (rank_cache (snd (get_volatility_rank q e s))) p \<noteq> None \<longrightarrow>
         insert q U \<subseteq> set (newer p (rank_cache (snd (get_volatility_rank q e s))))"
proof (cases "map_of (rank_cache s) p")
  case None
  have "map_of (rank_cache (snd (get_volatility_rank q e s))) p = None"
  proof (cases "map_of (rank_cache s) q")
    case (Some w)
    from lru_lookup_touch [of p q "rank_cache s"] None Some show ?thesis
      by (simp add: rank_cache_after_rank lru_lookup_def)
  next
    case nq: None
    from store_absent [OF other None] nq answered show ?thesis
      by (simp add: rank_cache_after_rank)
  qed
  then show ?thesis by simp
next
  case (Some r)
  let ?c = "rank_cache s"
  from Some inv have U: "U \<subseteq> set (newer p ?c)" by simp
  show ?thesis
  proof (cases "map_of ?c q")
    case sq: (Some w)
    from touch_newer_other [OF other, of ?c] Some sq
    have "set (newer p (lru_touch q ?c)) = insert q (set (newer p ?c))" by simp
    with U sq show ?thesis by (auto simp: rank_cache_after_rank)
  next
    case nq: None
    show ?thesis
    proof (cases "length ?c < maxsize \<or> fst (hd ?c) \<noteq> p")
      case True
      from Some have "map_of ?c p \<noteq> None" by simp
      from store_newer_other [OF other this nq True] U nq answered show ?thesis
        by (auto simp: rank_cache_after_rank)
    next
      case False
      from Some have ne: "?c \<noteq> []" by auto
      from ok have "distinct (map fst ?c)" by (simp add: cache_ok_def)
      from store_evicts [OF this ne _ other nq] False nq answered show ?thesis
        by (simp add: rank_cache_after_rank)
    qed
  qed
qed

lemma cached_rank_evicted:
  assumes "cache_ok (rank_cache s)"
    and "map_of (rank_cache s) p \<noteq> None \<longrightarrow> U \<subseteq> set (newer p (rank_cache s))"
    and "p \<notin> set (rank_args calls)"
    and "rank_queries_answered calls"
  shows "cache_ok (rank_cache (do_calls calls s)) \<and>
         (map_of (rank_cache (do_calls calls s)) p \<noteq> None \<longrightarrow>
            U \<union> set (rank_args calls) \<subseteq> set (newer p (rank_cache (do_calls calls s))))"
  using assms
proof (induction calls arbitrary: s U)
  case Nil
  then show ?case by simp
next
  case (Cons ce calls)
  obtain c e where ce: "ce = (c, e)" by (cases ce)
  from Cons.prems(4) have rest: "rank_queries_answered calls"
    by (simp add: rank_queries_answered_def)
  show ?case
  proof (cases c)
    case (Get_volatility_rank q)
    let ?s' = "snd (get_volatility_rank q e s)"
    from Cons.prems(3) have other: "q \<noteq> p" and p: "p \<notin> set (rank_args calls)"
      by (auto simp: ce Get_volatility_rank)
    from Cons.prems(4) have ans: "\<not> db_fault e Connect \<and> \<not> db_fault e (Select_rank q)"
      by (simp add: rank_queries_answered_def ce Get_volatility_rank)
    have ok': "cache_ok (rank_cache ?s')" using Cons.prems(1) by (rule rank_call_ok)
    from rank_call_pushes [OF Cons.prems(1) other ans Cons.prems(2)]
    have inv': "map_of (rank_cache ?s') p \<noteq> None \<longrightarrow> insert q U \<subseteq> set (newer p (rank_cache ?s'))" .
    from Cons.IH [OF ok' inv' p rest] show ?thesis
      by (simp add: ce Get_volatility_rank)
  next
    case (Store_prices prices)
    have "rank_cache (do_call c e s) = rank_cache s"
      by (simp add: Store_prices store_prices_caches rank_cache_after_fetch rank_cache_after_history)
    moreover have "rank_args (ce # calls) = rank_args calls" by (simp add: ce Store_prices)
    ultimately show ?thesis
      using Cons.IH [of "do_call c e s" U] Cons.prems(1-3) rest by (simp add: ce)
  next
    case Fetch_prices
    have "rank_cache (do_call c e s) = rank_cache s"
      by (simp add: Fetch_prices store_prices_caches rank_cache_after_fetch rank_cache_after_history)
    moreover have "rank_args (ce # calls) = rank_args calls" by (simp add: ce Fetch_prices)
    ultimately show ?thesis
      using Cons.IH [of "do_call c e s" U] Cons.prems(1-3) rest by (simp add: ce)
  next
    case (Get_price_history q hours)
    have "rank_cache (do_call c e s) = rank_cache s"
      by (simp add: Get_price_history store_prices_caches rank_cache_after_fetch rank_cache_after_history)
    moreover have "rank_args (ce # calls) = rank_args calls" by (simp add: ce Get_price_history)
    ultimately show ?thesis
      using Cons.IH [of "do_call c e s" U] Cons.prems(1-3) rest by (simp add: ce)
  qed
qed

lemma cache_ok_calls: "cache_ok (rank_cache s) \<Longrightarrow> cache_ok (rank_cache (do_calls calls s))"
proof (induction calls arbitrary: s)
  case Nil
  then show ?case by simp
next
  case (Cons ce calls)
  obtain c e where ce: "ce = (c, e)" by (cases ce)
  from Cons.prems have "cache_ok (rank_cache (do_call c e s))"
    by (cases c) (simp_all add: rank_call_ok store_prices_caches rank_cache_after_fetch
        rank_cache_after_history)
  from Cons.IH [OF this] show ?case by (simp add: ce)
qed

section \<open>The ranking query\<close>

lemma sorted_desc_parts:
  fixes pre ys :: "(string \<times> real) list"
  assumes "sorted (map (\<lambda>(p, sd). - sd) (pre @ (p, sd) # ys))"
  shows "\<forall>x \<in> set pre. sd \<le> snd x"
    and "\<forall>z \<in> set ys. snd z \<le> sd"
    and "pre \<noteq> [] \<longrightarrow> (\<forall>x \<in> set pre. snd (last pre) \<le> snd x)"
proof -
  let ?f = "(\<lambda>(p, sd). - sd) :: string \<times> real \<Rightarrow> real"
  from assms have a: "sorted (map ?f pre)"
    and b: "sorted (map ?f ((p, sd) # ys))"
    and c: "\<forall>x \<in> set pre. \<forall>y \<in> set ((p, sd) # ys). ?f x \<le> ?f y"
    by (auto simp: sorted_append)
  from c show "\<forall>x \<in> set pre. sd \<le> snd x" by (auto simp: case_prod_beta)
  from b show "\<forall>z \<in> set ys. snd z \<le> sd" by (auto simp: case_prod_beta)
  show "pre \<noteq> [] \<longrightarrow> (\<forall>x \<in> set pre. snd (last pre) \<le> snd x)"
  proof (intro impI ballI)
    fix x assume ne: "pre \<noteq> []" and x: "x \<in> set pre"
    from ne have split: "pre = butlast pre @ [last pre]" by simp
    with a have "sorted (map ?f (butlast pre @ [last pre]))" by simp
    then have "\<forall>z \<in> set (butlast pre). ?f z \<le> ?f (last pre)"
      by (simp add: sorted_append)
    moreover from x split have "x \<in> set (butlast pre) \<or> x = last pre"
      by (metis Un_iff insert_iff list.set(1) list.simps(15) set_append empty_iff)
    ultimately have "?f x \<le> ?f (last pre)" by auto
    then show "snd (last pre) \<le> snd x" by (simp add: case_prod_beta)
  qed
qed

lemma higher_fresh:
  fixes pre ys :: "(string \<times> real) list"
  assumes "sorted (map (\<lambda>(p, sd). - sd) (pre @ (p, sd) # ys))"
    and "pre = [] \<or> snd (last pre) \<noteq> sd"
  shows "higher (pre @ (p, sd) # ys) sd = length pre"
proof -
  note parts = sorted_desc_parts [OF assms(1)]
  have "\<forall>x \<in> set pre. sd < snd x"
  proof
    fix x assume x: "x \<in> set pre"
    then have ne: "pre \<noteq> []" by auto
    with assms(2) have "snd (last pre) \<noteq> sd" by simp
    moreover from ne have "last pre \<in> set pre" by simp
    with parts(1) have "sd \<le> snd (last pre)" by blast
    moreover from parts(3) ne x have "snd (last pre) \<le> snd x" by blast
    ultimately show "sd < snd x" by simp
  qed
  then have "filter (\<lambda>(q, sd'). sd < sd') pre = pre"
    by (auto simp: filter_id_conv)
  moreover from parts(2) have "filter (\<lambda>(q, sd'). sd < sd') ys = []"
    by (auto simp: filter_empty_conv)
  ultimately show ?thesis by (simp add: higher_def)
qed

lemma rank_rows_sorted:
  fixes L :: "(string \<times> real) list"
  assumes "sorted (map (\<lambda>(p, sd). - sd) L)"
  shows "L = pre @ ys \<Longrightarrow>
         prev = (if pre = [] then None else Some (snd (last pre), Suc (higher L (snd (last pre))))) \<Longrightarrow>
         rank_rows (Suc (length pre)) prev ys = map (\<lambda>(p, sd). (p, Suc (higher L sd))) ys"
proof (induction ys arbitrary: pre prev)
  case Nil
  then show ?case by simp
next
  case (Cons y ys)
  obtain p sd where y: "y = (p, sd)" by (cases y)
  define r where "r = (case prev of None \<Rightarrow> Suc (length pre) | Some (sd', r') \<Rightarrow> if sd' = sd then r' else Suc (length pre))"
  have L: "L = pre @ (p, sd) # ys" using Cons.prems(1) y by simp
  have r: "r = Suc (higher L sd)"
  proof (cases "pre = [] \<or> snd (last pre) \<noteq> sd")
    case True
    from assms L have "sorted (map (\<lambda>(p, sd). - sd) (pre @ (p, sd) # ys))" by simp
    from higher_fresh [OF this True] have "higher L sd = length pre" by (simp add: L)
    moreover from True have "r = Suc (length pre)"
      by (auto simp: r_def Cons.prems(2))
    ultimately show ?thesis by simp
  next
    case False
    then show ?thesis by (simp add: r_def Cons.prems(2))
  qed
  have "rank_rows (Suc (length (pre @ [y]))) (Some (sd, r)) ys = map (\<lambda>(p, sd). (p, Suc (higher L sd))) ys"
    by (rule Cons.IH) (simp_all add: L y r)
  then show ?case
    by (simp add: y r_def [symmetric] Let_def r)
qed

lemma rank_rows_all:
  fixes L :: "(string \<times> real) list"
  assumes "sorted (map (\<lambda>(p, sd). - sd) L)"
  shows "rank_rows 1 None L = map (\<lambda>(p, sd). (p, Suc (higher L sd))) L"
  using rank_rows_sorted [OF assms, of "[]" L None] by simp

lemma window_prices_pair:
  assumes "1 < length (window_prices rows t p)"
  shows "p \<in> set (map row_pair (in_window rows t))"
proof -
  from assms have "filter (\<lambda>r. row_pair r = p) (in_window rows t) \<noteq> []"
    by (auto simp: window_prices_def group_rows_def)
  then obtain r where "r \<in> set (in_window rows t)" and "row_pair r = p"
    by (auto simp: filter_empty_conv)
  then show ?thesis by auto
qed

lemma pair_stddev_distinct: "distinct (map fst (pair_stddev agg rows t))"
  by (simp add: pair_stddev_def comp_def)

lemma map_of_pair_stddev:
  "map_of (pair_stddev agg rows t) p =
     (if 1 < length (window_prices rows t p) then Some (agg (window_prices rows t p)) else None)"
proof -
  have "map_of (pair_stddev agg rows t) p =
      (if p \<in> set (filter (\<lambda>p. 1 < length (window_prices rows t p)) (remdups (map row_pair (in_window rows t))))
       then Some (agg (window_prices rows t p)) else None)"
    unfolding pair_stddev_def by (simp add: map_of_map_restrict restrict_map_def)
  also have "p \<in> set (filter (\<lambda>p. 1 < length (window_prices rows t p)) (remdups (map row_pair (in_window rows t))))
      \<longleftrightarrow> 1 < length (window_prices rows t p)"
    using window_prices_pair [of rows t p] by auto
  finally show ?thesis .
qed

lemma higher_sort: "higher (sort_key f L) sd = higher L sd"
  by (simp add: higher_def filter_sort)

lemma map_of_sort_key:
  assumes "distinct (map fst L)"
  shows "map_of (sort_key f L) = map_of L"
proof -
  have "distinct (map fst (sort_key f L))"
    using assms by (simp add: distinct_map)
  with assms show ?thesis by (simp add: map_of_inject_set)
qed

lemma select_rank_eq:
  "select_rank agg rows t p =
     (if 1 < length (window_prices rows t p)
      then Some (Suc (higher (pair_stddev agg rows t) (agg (window_prices rows t p))))
      else None)"
proof -
  let ?L = "sort_key (\<lambda>(p, sd). - sd) (pair_stddev agg rows t)"
  have "sorted (map (\<lambda>(p, sd). - sd) ?L)" by (rule sorted_sort_key)
  then have "rank_rows 1 None ?L = map (\<lambda>(p, sd). (p, Suc (higher ?L sd))) ?L"
    by (rule rank_rows_all)
  then have "select_rank agg rows t p = map_option (\<lambda>sd. Suc (higher ?L sd)) (map_of ?L p)"
    by (simp add: select_rank_def pair_ranks_def map_of_map)
  also have "map_of ?L = map_of (pair_stddev agg rows t)"
    by (rule map_of_sort_key) (rule pair_stddev_distinct)
  finally show ?thesis
    by (simp add: map_of_pair_stddev higher_sort)
qed

lemma filter_length_mono:
  "(\<And>x. P x \<Longrightarrow> Q x) \<Longrightarrow> length (filter P L) \<le> length (filter Q L)"
  by (induction L) auto

lemma filter_length_strict:
  assumes "\<And>x. P x \<Longrightarrow> Q x" and "x \<in> set L" and "Q x" and "\<not> P x"
  shows "length (filter P L) < length (filter Q L)"
  using assms(2)
proof (induction L)
  case Nil
  then show ?case by simp
next
  case (Cons y L)
  show ?case
  proof (cases "x = y")
    case True
    with assms(3,4) filter_length_mono [of P Q L, OF assms(1)] show ?thesis by simp
  next
    case False
    with Cons have "length (filter P L) < length (filter Q L)" by simp
    with assms(1) [of y] show ?thesis by auto
  qed
qed

lemma higher_strict:
  assumes "(p, sd) \<in> set L" and "sd' < sd"
  shows "higher L sd < higher L sd'"
  unfolding higher_def
  by (rule filter_length_strict [where x = "(p, sd)"]) (use assms in auto)

lemma window_prices_samples: "window_prices (price_history s) (now e) p = window_samples s e p"
  by (simp add: window_prices_def group_rows_def in_window_def window_samples_def us_per_hour_def
      conj_commute)

lemma ranked_pairs_set: "set (ranked_pairs s e) = {q. 2 \<le> length (window_samples s e q)}"
proof -
  have "q \<in> row_pair ` set (price_history s)" if "2 \<le> length (window_samples s e q)" for q
  proof -
    from that have "filter (\<lambda>r. row_pair r = q \<and> now e - 86400000000 \<le> row_timestamp r) (price_history s) \<noteq> []"
      by (auto simp: window_samples_def)
    then obtain r where "r \<in> set (price_history s)" and "row_pair r = q"
      by (auto simp: filter_empty_conv)
    then show ?thesis by auto
  qed
  then show ?thesis by (auto simp: ranked_pairs_def)
qed

lemma pair_stddev_keys:
  "set (map fst (pair_stddev agg (price_history s) (now e))) = {q. 2 \<le> length (window_samples s e q)}"
proof -
  have "set (map fst (pair_stddev agg (price_history s) (now e))) =
      {q \<in> row_pair ` set (in_window (price_history s) (now e)). 1 < length (window_samples s e q)}"
    by (auto simp: pair_stddev_def window_prices_samples comp_def)
  also have "\<dots> = {q. 2 \<le> length (window_samples s e q)}"
    using window_prices_pair [of "price_history s" "now e"]
    by (auto simp: window_prices_samples)
  finally show ?thesis .
qed

lemma higher_more_volatile:
  "higher (pair_stddev (db_stddev e) (price_history s) (now e)) (volatility s e p) = more_volatile s e p"
proof -
  let ?Q = "\<lambda>q. volatility s e p < volatility s e q"
  let ?L1 = "map fst (pair_stddev (db_stddev e) (price_history s) (now e))"
  have "higher (pair_stddev (db_stddev e) (price_history s) (now e)) (volatility s e p) =
      length (filter ?Q ?L1)"
    by (simp add: higher_def pair_stddev_def filter_map comp_def window_prices_samples volatility_def)
  also have "\<dots> = card ({q. ?Q q} \<inter> set ?L1)"
    by (rule distinct_length_filter) (rule pair_stddev_distinct)
  also have "set ?L1 = set (ranked_pairs s e)"
    by (simp only: pair_stddev_keys ranked_pairs_set)
  also have "card ({q. ?Q q} \<inter> set (ranked_pairs s e)) = length (filter ?Q (ranked_pairs s e))"
    by (rule distinct_length_filter [symmetric]) (simp add: ranked_pairs_def)
  finally show ?thesis by (simp add: more_volatile_def)
qed

lemma computed_rank:
  assumes "lru_lookup p (rank_cache s) = None"
    and "\<not> db_fault e Connect" and "\<not> db_fault e (Select_rank p)"
  shows "fst (get_volatility_rank p e s) =
     Inr (if 2 \<le> length (window_samples s e p) then Some (Suc (more_volatile s e p)) else None)"
proof -
  have "select_rank (db_stddev e) (price_history s) (now e) p =
      (if 2 \<le> length (window_samples s e p) then Some (Suc (more_volatile s e p)) else None)"
    using higher_more_volatile [of e s p]
    by (auto simp: select_rank_eq window_prices_samples volatility_def)
  with get_volatility_rank_miss [OF assms] show ?thesis by simp
qed

lemma more_volatile_strict:
  assumes "2 \<le> length (window_samples s e p)" and "volatility s e q < volatility s e p"
  shows "more_volatile s e p < more_volatile s e q"
proof -
  from assms(1) have "p \<in> set (ranked_pairs s e)" by (simp add: ranked_pairs_set)
  then show ?thesis
    unfolding more_volatile_def
    by (rule filter_length_strict [rotated]) (use assms(2) in auto)
qed

text \<open>
  Claim C2, for calls that run the query. When the pair is not in the cache and the
  database answers, \<^verbatim>\<open>get_volatility_rank\<close> returns \<open>None\<close> exactly when the pair has
  fewer than two samples in the trailing 24-hour window; otherwise it returns one plus
  the number of ranked pairs whose standard deviation over the window, as the database
  computes it, is strictly higher. So ranks start at 1, a strictly higher standard
  deviation gets a strictly lower rank, equal standard deviations get equal ranks, and
  the rank after a tie skips the tied places.
\<close>

theorem volatility_rank_of_computed_call:
  assumes "lru_lookup p (rank_cache s) = None" and "lru_lookup q (rank_cache s) = None"
    and "\<not> db_fault e Connect" and "\<not> db_fault e (Select_rank p)" and "\<not> db_fault e (Select_rank q)"
  shows "(fst (get_volatility_rank p e s) = Inr None \<longleftrightarrow> length (window_samples s e p) < 2) \<and>
         (2 \<le> length (window_samples s e p) \<longrightarrow>
            fst (get_volatility_rank p e s) = Inr (Some (Suc (more_volatile s e p)))) \<and>
         (\<forall>rp rq. fst (get_volatility_rank p e s) = Inr (Some rp) \<and>
                  fst (get_volatility_rank q e s) = Inr (Some rq) \<longrightarrow>
            1 \<le> rp \<and>
            (volatility s e q < volatility s e p \<longrightarrow> rp < rq) \<and>
            (volatility s e p = volatility s e q \<longrightarrow> rp = rq))"
proof -
  note rp = computed_rank [OF assms(1,3,4)]
  note rq = computed_rank [OF assms(2,3,5)]
  have a: "fst (get_volatility_rank p e s) = Inr None \<longleftrightarrow> length (window_samples s e p) < 2"
    by (auto simp: rp)
  have b: "2 \<le> length (window_samples s e p) \<longrightarrow>
            fst (get_volatility_rank p e s) = Inr (Some (Suc (more_volatile s e p)))"
    by (simp add: rp)
  have c: "1 \<le> rp' \<and>
            (volatility s e q < volatility s e p \<longrightarrow> rp' < rq') \<and>
            (volatility s e p = volatility s e q \<longrightarrow> rp' = rq')"
    if h: "fst (get_volatility_rank p e s) = Inr (Some rp') \<and> fst (get_volatility_rank q e s) = Inr (Some rq')"
    for rp' rq'
  proof -
    from h rp have cp: "2 \<le> length (window_samples s e p)"
      and vp: "rp' = Suc (more_volatile s e p)"
      by (auto split: if_splits)
    from h rq have vq: "rq' = Suc (more_volatile s e q)"
      by (auto split: if_splits)
    have "rp' < rq'" if "volatility s e q < volatility s e p"
      using more_volatile_strict [OF cp that] by (simp add: vp vq)
    moreover have "rp' = rq'" if "volatility s e p = volatility s e q"
      using that by (simp add: vp vq more_volatile_def)
    ultimately show ?thesis by (simp add: vp)
  qed
  from a b c show ?thesis by blast
qed

section \<open>Cached ranks\<close>

lemma select_rank_empty: "select_rank agg [] t p = None"
  by (simp add: select_rank_def pair_ranks_def pair_stddev_def in_window_def)

lemma service_ranked_early_eq:
  "service_ranked_early =
     \<lparr>price_history = [], last_update = None,
      history_cache = [],
      rank_cache = [(''btc/usd'', None)],
      db_log = [Connect, Select_rank ''btc/usd''],
      http_requests = []\<rparr>"
  by (simp add: service_ranked_early_def get_volatility_rank_def get_volatility_rank_body_def
      new_service_def offline_env_def lru_lookup_def lru_store_def maxsize_def select_rank_empty)

lemma service_ranked_then_stored_eq:
  "service_ranked_then_stored =
     \<lparr>price_history =
        [\<lparr>row_pair = ''btc/usd'', row_price = 50000, row_timestamp = 1000000\<rparr>,
         \<lparr>row_pair = ''btc/usd'', row_price = 51000, row_timestamp = 2000000\<rparr>],
      last_update = Some 2000000,
      history_cache = [],
      rank_cache = [(''btc/usd'', None)],
      db_log = [Connect, Select_rank ''btc/usd'',
                Connect, Insert \<lparr>row_pair = ''btc/usd'', row_price = 50000, row_timestamp = 1000000\<rparr>, Commit,
                Connect, Insert \<lparr>row_pair = ''btc/usd'', row_price = 51000, row_timestamp = 2000000\<rparr>, Commit],
      http_requests = []\<rparr>"
  by (simp add: service_ranked_then_stored_def service_ranked_early_eq store_prices_def offline_env_def
      engine_connect_def conn_execute_insert_def conn_commit_def conn_close_def)

lemma service_two_samples_eq:
  "service_two_samples =
     \<lparr>price_history =
        [\<lparr>row_pair = ''btc/usd'', row_price = 50000, row_timestamp = 1000000\<rparr>,
         \<lparr>row_pair = ''btc/usd'', row_price = 51000, row_timestamp = 2000000\<rparr>],
      last_update = Some 2000000,
      history_cache = [],
      rank_cache = [],
      db_log = [Connect, Insert \<lparr>row_pair = ''btc/usd'', row_price = 50000, row_timestamp = 1000000\<rparr>, Commit,
                Connect, Insert \<lparr>row_pair = ''btc/usd'', row_price = 51000, row_timestamp = 2000000\<rparr>, Commit],
      http_requests = []\<rparr>"
  by (simp add: service_two_samples_def new_service_def store_prices_def offline_env_def
      engine_connect_def conn_execute_insert_def conn_commit_def conn_close_def)

lemma stale_rank:
  "fst (get_volatility_rank ''btc/usd'' (offline_env 91000000) service_ranked_then_stored) = Inr None \<and>
   db_log (snd (get_volatility_rank ''btc/usd'' (offline_env 91000000) service_ranked_then_stored)) =
     db_log service_ranked_then_stored"
  by (simp add: service_ranked_then_stored_eq get_volatility_rank_def lru_lookup_def)

lemma fresh_rank:
  "fst (get_volatility_rank_body ''btc/usd'' (offline_env 91000000) service_ranked_then_stored) = Inr (Some 1)"
  by (simp add: service_ranked_then_stored_eq get_volatility_rank_body_def offline_env_def select_rank_def
      pair_ranks_def pair_stddev_def window_prices_def group_rows_def in_window_def us_per_hour_def)

lemma rank_two_samples:
  "fst (get_volatility_rank ''btc/usd'' (offline_env 3000000) service_two_samples) = Inr (Some 1)"
  by (simp add: service_two_samples_eq get_volatility_rank_def get_volatility_rank_body_def
      lru_lookup_def offline_env_def select_rank_def
      pair_ranks_def pair_stddev_def window_prices_def group_rows_def in_window_def us_per_hour_def)

text \<open>
  Claim C1, as the code has it, for \<^verbatim>\<open>get_volatility_rank\<close>. Its cache is an
  \<^verbatim>\<open>lru_cache\<close> of 32 entries, which keeps no time. Once a call has returned, a call with
  the same argument returns the same result without any database operation, whatever the
  clock reads and whatever the database does by then, after any calls of the service
  that pass fewer than 32 other pairs to \<^verbatim>\<open>get_volatility_rank\<close>. Once 32 other pairs
  have been ranked since, with the database answering and no call for the argument in
  between, the entry is gone: the next call with the argument runs the query again and
  caches its result.
\<close>

theorem cached_rank_has_no_expiry:
  assumes "cache_ok (rank_cache s)" and "get_volatility_rank p e s = (Inr r, s1)"
  shows "(length (remdups (removeAll p (rank_args calls))) < 32 \<longrightarrow>
            fst (get_volatility_rank p e' (do_calls calls s1)) = Inr r \<and>
            db_log (snd (get_volatility_rank p e' (do_calls calls s1))) = db_log (do_calls calls s1)) \<and>
         (p \<notin> set (rank_args calls) \<and> 32 \<le> length (remdups (rank_args calls)) \<and>
          rank_queries_answered calls \<and> \<not> db_fault e' Connect \<and> \<not> db_fault e' (Select_rank p) \<longrightarrow>
            fst (get_volatility_rank p e' (do_calls calls s1)) =
              Inr (select_rank (db_stddev e') (price_history (do_calls calls s1)) (now e') p) \<and>
            db_log (snd (get_volatility_rank p e' (do_calls calls s1))) =
              db_log (do_calls calls s1) @ [Connect, Select_rank p] \<and>
            lru_lookup p (rank_cache (snd (get_volatility_rank p e' (do_calls calls s1)))) =
              Some (select_rank (db_stddev e') (price_history (do_calls calls s1)) (now e') p))"
proof (intro conjI impI)
  note first = first_rank_call [OF assms]
  assume few: "length (remdups (removeAll p (rank_args calls))) < 32"
  have "card ({} \<union> (set (rank_args calls) - {p})) = length (remdups (removeAll p (rank_args calls)))"
    by (simp add: length_remdups_card_conv)
  with few have "card ({} \<union> (set (rank_args calls) - {p})) < 32" by simp
  with first have "map_of (rank_cache (do_calls calls s1)) p = Some r"
    by (intro cached_rank_survives [where K = "{}"]) simp_all
  then have hit: "lru_lookup p (rank_cache (do_calls calls s1)) = Some r"
    by (simp add: lru_lookup_def)
  from get_volatility_rank_hit [OF hit, of e']
  show "fst (get_volatility_rank p e' (do_calls calls s1)) = Inr r"
    and "db_log (snd (get_volatility_rank p e' (do_calls calls s1))) = db_log (do_calls calls s1)"
    by simp_all
next
  note first = first_rank_call [OF assms]
  assume a: "p \<notin> set (rank_args calls) \<and> 32 \<le> length (remdups (rank_args calls)) \<and>
          rank_queries_answered calls \<and> \<not> db_fault e' Connect \<and> \<not> db_fault e' (Select_rank p)"
  let ?s2 = "do_calls calls s1"
  from first have ok1: "cache_ok (rank_cache s1)"
    and inv1: "map_of (rank_cache s1) p \<noteq> None \<longrightarrow> {} \<subseteq> set (newer p (rank_cache s1))"
    by simp_all
  from a have pn: "p \<notin> set (rank_args calls)" and ans: "rank_queries_answered calls" by simp_all
  from cached_rank_evicted [OF ok1 inv1 pn ans]
  have ok2: "cache_ok (rank_cache ?s2)"
    and inv2: "map_of (rank_cache ?s2) p \<noteq> None \<longrightarrow> set (rank_args calls) \<subseteq> set (newer p (rank_cache ?s2))"
    by simp_all
  have gone: "map_of (rank_cache ?s2) p = None"
  proof (rule ccontr)
    assume present: "map_of (rank_cache ?s2) p \<noteq> None"
    with inv2 have "set (rank_args calls) \<subseteq> set (newer p (rank_cache ?s2))" by simp
    then have "card (set (rank_args calls)) \<le> card (set (newer p (rank_cache ?s2)))"
      by (simp add: card_mono)
    also have "\<dots> \<le> length (newer p (rank_cache ?s2))" by (rule card_length)
    also from length_newer [OF present] ok2 have "\<dots> < 32"
      by (simp add: cache_ok_def maxsize_def)
    finally have "length (remdups (rank_args calls)) < 32"
      by (simp add: length_remdups_card_conv)
    with a show False by simp
  qed
  then have miss: "lru_lookup p (rank_cache ?s2) = None" by (simp add: lru_lookup_def)
  from a have up: "\<not> db_fault e' Connect" "\<not> db_fault e' (Select_rank p)" by simp_all
  note r = get_volatility_rank_miss [OF miss up]
  from r show "fst (get_volatility_rank p e' ?s2) =
              Inr (select_rank (db_stddev e') (price_history ?s2) (now e') p)" by simp
  from r show "db_log (snd (get_volatility_rank p e' ?s2)) = db_log ?s2 @ [Connect, Select_rank p]"
    by simp
  from r miss show "lru_lookup p (rank_cache (snd (get_volatility_rank p e' ?s2))) =
              Some (select_rank (db_stddev e') (price_history ?s2) (now e') p)"
    by (simp add: lru_lookup_store)
qed

lemma thirty_two_ranks_args:
  "rank_args (thirty_two_ranks t) = map (\<lambda>n. replicate n CHR ''x'') [1 ..< 33]"
proof -
  have "rank_args (map (\<lambda>n. (Get_volatility_rank (f n), e)) ns) = map f ns" for f e and ns :: "nat list"
    by (induction ns) simp_all
  then show ?thesis by (simp add: thirty_two_ranks_def)
qed

lemma thirty_two_ranks_distinct: "length (remdups (rank_args (thirty_two_ranks t))) = 32"
proof -
  have "inj_on (\<lambda>n. replicate n CHR ''x'') (set [1 ..< 33])"
    by (rule inj_onI) (metis length_replicate)
  then have "distinct (map (\<lambda>n. replicate n CHR ''x'') [1 ..< 33])"
    by (simp add: distinct_map)
  then show ?thesis by (simp add: thirty_two_ranks_args distinct_remdups_id)
qed

lemma thirty_two_ranks_other: "''btc/usd'' \<notin> set (rank_args (thirty_two_ranks t))"
proof -
  have "''btc/usd'' \<noteq> replicate n CHR ''x''" for n
    by (cases n) simp_all
  then show ?thesis by (auto simp: thirty_two_ranks_args)
qed

lemma thirty_two_ranks_answered: "rank_queries_answered (thirty_two_ranks t)"
  by (simp add: rank_queries_answered_def thirty_two_ranks_def list_all_iff offline_env_def)

theorem cached_rank_has_no_expiry_witness:
  "cache_ok (rank_cache service_two_samples) \<and>
   fst (get_volatility_rank ''btc/usd'' (offline_env 3000000) service_two_samples) = Inr (Some 1) \<and>
   fst (get_volatility_rank ''btc/usd'' (offline_env 93000001)
     (do_calls [(Store_prices [(''btc/usd'', 52000)], offline_env 4000000),
                (Get_volatility_rank ''eth/usd'', offline_env 5000000)]
       (snd (get_volatility_rank ''btc/usd'' (offline_env 3000000) service_two_samples)))) = Inr (Some 1) \<and>
   length (remdups (rank_args (thirty_two_ranks 4000000))) = 32 \<and>
   db_log (snd (get_volatility_rank ''btc/usd'' (offline_env 5000000)
     (do_calls (thirty_two_ranks 4000000)
       (snd (get_volatility_rank ''btc/usd'' (offline_env 3000000) service_two_samples))))) =
     db_log (do_calls (thirty_two_ranks 4000000)
       (snd (get_volatility_rank ''btc/usd'' (offline_env 3000000) service_two_samples))) @
     [Connect, Select_rank ''btc/usd'']"
proof -
  have ok: "cache_ok (rank_cache service_two_samples)"
    by (simp add: service_two_samples_eq cache_ok_def maxsize_def)
  have h1: "get_volatility_rank ''btc/usd'' (offline_env 3000000) service_two_samples =
      (Inr (Some 1), snd (get_volatility_rank ''btc/usd'' (offline_env 3000000) service_two_samples))"
    using rank_two_samples by (simp add: prod_eq_iff)
  have up: "\<not> db_fault (offline_env 5000000) op" for op
    by (simp add: offline_env_def)
  from cached_rank_has_no_expiry [OF ok h1,
      of "[(Store_prices [(''btc/usd'', 52000)], offline_env 4000000),
           (Get_volatility_rank ''eth/usd'', offline_env 5000000)]" "offline_env 93000001"]
  have a: "fst (get_volatility_rank ''btc/usd'' (offline_env 93000001)
     (do_calls [(Store_prices [(''btc/usd'', 52000)], offline_env 4000000),
                (Get_volatility_rank ''eth/usd'', offline_env 5000000)]
       (snd (get_volatility_rank ''btc/usd'' (offline_env 3000000) service_two_samples)))) = Inr (Some 1)"
    by simp
  from cached_rank_has_no_expiry [OF ok h1, of "thirty_two_ranks 4000000" "offline_env 5000000"]
    thirty_two_ranks_distinct [of 4000000] thirty_two_ranks_other [of 4000000]
    thirty_two_ranks_answered [of 4000000] up
  have b: "db_log (snd (get_volatility_rank ''btc/usd'' (offline_env 5000000)
     (do_calls (thirty_two_ranks 4000000)
       (snd (get_volatility_rank ''btc/usd'' (offline_env 3000000) service_two_samples))))) =
     db_log (do_calls (thirty_two_ranks 4000000)
       (snd (get_volatility_rank ''btc/usd'' (offline_env 3000000) service_two_samples))) @
     [Connect, Select_rank ''btc/usd'']"
    by simp
  from ok rank_two_samples a b thirty_two_ranks_distinct [of 4000000] show ?thesis by simp
qed

text \<open>
  The claim as stated fails: 91 seconds after the rank of \<open>btc/usd\<close> was computed on the
  empty table, and with two batches stored meanwhile, \<^verbatim>\<open>get_volatility_rank\<close> still
  returns \<open>None\<close> and does not query the database, although its query would now return
  rank 1.
\<close>

theorem ttl_expiry_counterexample:
  "fst (get_volatility_rank ''btc/usd'' (offline_env 91000000) service_ranked_then_stored) = Inr None \<and>
   db_log (snd (get_volatility_rank ''btc/usd'' (offline_env 91000000) service_ranked_then_stored)) =
     db_log service_ranked_then_stored \<and>
   fst (get_volatility_rank_body ''btc/usd'' (offline_env 91000000) service_ranked_then_stored) = Inr (Some 1)"
  using stale_rank fresh_rank by simp

section \<open>Ranks on a concrete table\<close>

lemma service_three_pairs_eq:
  "price_history service_three_pairs =
        [\<lparr>row_pair = ''btc/usd'', row_price = 50000, row_timestamp = 1000000\<rparr>,
         \<lparr>row_pair = ''eth/usd'', row_price = 2000, row_timestamp = 1000000\<rparr>,
         \<lparr>row_pair = ''sol/usd'', row_price = 100, row_timestamp = 1000000\<rparr>,
         \<lparr>row_pair = ''btc/usd'', row_price = 51000, row_timestamp = 2000000\<rparr>,
         \<lparr>row_pair = ''eth/usd'', row_price = 2000, row_timestamp = 2000000\<rparr>,
         \<lparr>row_pair = ''btc/usd'', row_price = 52000, row_timestamp = 3000000\<rparr>,
         \<lparr>row_pair = ''eth/usd'', row_price = 2000, row_timestamp = 3000000\<rparr>]"
  "rank_cache service_three_pairs = []"
  by (simp_all add: service_three_pairs_def new_service_def store_prices_def offline_env_def
      engine_connect_def conn_execute_insert_def conn_commit_def conn_close_def)

lemma three_pairs_samples:
  "window_samples service_three_pairs (offline_env 4000000) ''btc/usd'' = [50000, 51000, 52000]"
  "window_samples service_three_pairs (offline_env 4000000) ''eth/usd'' = [2000, 2000, 2000]"
  "window_samples service_three_pairs (offline_env 4000000) ''sol/usd'' = [100]"
  by (simp_all add: window_samples_def service_three_pairs_eq offline_env_def)

lemma three_pairs_stddev:
  "sample_stddev [50000, 51000, 52000] = 1000" "sample_stddev [2000, 2000, 2000] = 0"
proof -
  have "sqrt 1000000 = 1000" by (rule real_sqrt_unique) simp_all
  then show "sample_stddev [50000, 51000, 52000] = 1000"
    by (simp add: sample_stddev_def power2_eq_square)
  show "sample_stddev [2000, 2000, 2000] = 0"
    by (simp add: sample_stddev_def)
qed

lemma three_pairs_volatility:
  "volatility service_three_pairs (offline_env 4000000) ''btc/usd'' = 1000"
  "volatility service_three_pairs (offline_env 4000000) ''eth/usd'' = 0"
  by (simp_all add: volatility_def three_pairs_samples three_pairs_stddev)
     (simp_all add: offline_env_def three_pairs_stddev)

lemma three_pairs_ranked:
  "ranked_pairs service_three_pairs (offline_env 4000000) = [''btc/usd'', ''eth/usd'']"
proof -
  have "remdups (map row_pair (price_history service_three_pairs)) = [''sol/usd'', ''btc/usd'', ''eth/usd'']"
    by (simp add: service_three_pairs_eq)
  then show ?thesis by (simp add: ranked_pairs_def three_pairs_samples)
qed

theorem volatility_rank_of_computed_call_witness:
  "fst (get_volatility_rank ''sol/usd'' (offline_env 4000000) service_three_pairs) = Inr None \<and>
   fst (get_volatility_rank ''btc/usd'' (offline_env 4000000) service_three_pairs) = Inr (Some 1) \<and>
   fst (get_volatility_rank ''eth/usd'' (offline_env 4000000) service_three_pairs) = Inr (Some 2)"
proof -
  have miss: "lru_lookup p (rank_cache service_three_pairs) = None" for p
    by (simp add: service_three_pairs_eq lru_lookup_def)
  have up: "\<not> db_fault (offline_env 4000000) op" for op
    by (simp add: offline_env_def)
  from volatility_rank_of_computed_call [OF miss miss up up up, of "''sol/usd''" "''sol/usd''"]
  have "fst (get_volatility_rank ''sol/usd'' (offline_env 4000000) service_three_pairs) = Inr None"
    by (simp add: three_pairs_samples)
  moreover
  from volatility_rank_of_computed_call [OF miss miss up up up, of "''btc/usd''" "''eth/usd''"]
  have "fst (get_volatility_rank ''btc/usd'' (offline_env 4000000) service_three_pairs) = Inr (Some 1)"
    by (simp add: three_pairs_samples three_pairs_volatility three_pairs_ranked more_volatile_def)
  moreover
  from volatility_rank_of_computed_call [OF miss miss up up up, of "''eth/usd''" "''btc/usd''"]
  have "fst (get_volatility_rank ''eth/usd'' (offline_env 4000000) service_three_pairs) = Inr (Some 2)"
    by (simp add: three_pairs_samples three_pairs_volatility three_pairs_ranked more_volatile_def)
  ultimately show ?thesis by simp
qed

lemma stale_rank_with_samples:
  "fst (get_volatility_rank ''btc/usd'' (offline_env 3000000) service_ranked_then_stored) = Inr None \<and>
   window_samples service_ranked_then_stored (offline_env 3000000) ''btc/usd'' = [50000, 51000]"
  by (simp add: service_ranked_then_stored_eq get_volatility_rank_def lru_lookup_def window_samples_def
      offline_env_def)

lemma service_large_prices_eq:
  "price_history service_large_prices =
     [\<lparr>row_pair = ''eth/usd'', row_price = 1, row_timestamp = 1000000\<rparr>,
      \<lparr>row_pair = ''btc/usd'', row_price = 4000000000000000, row_timestamp = 1000000\<rparr>,
      \<lparr>row_pair = ''eth/usd'', row_price = 2, row_timestamp = 2000000\<rparr>,
      \<lparr>row_pair = ''btc/usd'', row_price = 4000000000000001, row_timestamp = 2000000\<rparr>,
      \<lparr>row_pair = ''eth/usd'', row_price = 3, row_timestamp = 3000000\<rparr>,
      \<lparr>row_pair = ''btc/usd'', row_price = 4000000000000002, row_timestamp = 3000000\<rparr>]"
  "rank_cache service_large_prices = []"
  by (simp_all add: service_large_prices_def new_service_def store_prices_def offline_env_def
      engine_connect_def conn_execute_insert_def conn_commit_def conn_close_def)

lemma large_prices_samples:
  "window_samples service_large_prices (float8_env 4000000) ''eth/usd'' = [1, 2, 3]"
  "window_samples service_large_prices (float8_env 4000000) ''btc/usd'' =
     [4000000000000000, 4000000000000001, 4000000000000002]"
  by (simp_all add: window_samples_def service_large_prices_eq float8_env_def)

lemma large_prices_exact:
  "sample_stddev [1, 2, 3] = 1"
  "sample_stddev [4000000000000000, 4000000000000001, 4000000000000002] = 1"
  by (simp_all add: sample_stddev_def power2_eq_square)

lemma large_prices_volatility:
  "volatility service_large_prices (float8_env 4000000) ''eth/usd'' = 1"
  "volatility service_large_prices (float8_env 4000000) ''btc/usd'' = 7637626158259733 / 10000000000000000"
  by (simp_all add: volatility_def large_prices_samples)
     (simp_all add: float8_env_def large_prices_exact)

lemma large_prices_ranked:
  "ranked_pairs service_large_prices (float8_env 4000000) = [''eth/usd'', ''btc/usd'']"
proof -
  have "remdups (map row_pair (price_history service_large_prices)) = [''eth/usd'', ''btc/usd'']"
    by (simp add: service_large_prices_eq)
  then show ?thesis by (simp add: ranked_pairs_def large_prices_samples)
qed

lemma large_prices_ranks:
  "fst (get_volatility_rank ''eth/usd'' (float8_env 4000000) service_large_prices) = Inr (Some 1)"
  "fst (get_volatility_rank ''btc/usd'' (float8_env 4000000) service_large_prices) = Inr (Some 2)"
proof -
  have miss: "lru_lookup p (rank_cache service_large_prices) = None" for p
    by (simp add: service_large_prices_eq lru_lookup_def)
  have up: "\<not> db_fault (float8_env 4000000) op" for op
    by (simp add: float8_env_def)
  from computed_rank [OF miss up up, of "''eth/usd''"]
  show "fst (get_volatility_rank ''eth/usd'' (float8_env 4000000) service_large_prices) = Inr (Some 1)"
    by (simp add: large_prices_samples large_prices_volatility large_prices_ranked more_volatile_def)
  from computed_rank [OF miss up up, of "''btc/usd''"]
  show "fst (get_volatility_rank ''btc/usd'' (float8_env 4000000) service_large_prices) = Inr (Some 2)"
    by (simp add: large_prices_samples large_prices_volatility large_prices_ranked more_volatile_def)
qed

text \<open>
  The claim as stated fails in two ways. A call answered from the cache returns the rank
  computed earlier: the rank of \<open>btc/usd\<close> was computed while the table was empty, and
  the call still returns \<open>None\<close> when the pair has two samples in the window. And the
  ranking follows the standard deviation that the database computes, not the exact one:
  the samples 1, 2, 3 and the three large samples have the same standard deviation, 1,
  but the database's value for the large ones is smaller, and the two pairs get the ranks
  1 and 2.
\<close>

theorem volatility_rank_counterexample:
  "fst (get_volatility_rank ''btc/usd'' (offline_env 3000000) service_ranked_then_stored) = Inr None \<and>
   window_samples service_ranked_then_stored (offline_env 3000000) ''btc/usd'' = [50000, 51000] \<and>
   sample_stddev (window_samples service_large_prices (float8_env 4000000) ''eth/usd'') = 1 \<and>
   sample_stddev (window_samples service_large_prices (float8_env 4000000) ''btc/usd'') = 1 \<and>
   fst (get_volatility_rank ''eth/usd'' (float8_env 4000000) service_large_prices) = Inr (Some 1) \<and>
   fst (get_volatility_rank ''btc/usd'' (float8_env 4000000) service_large_prices) = Inr (Some 2)"
  using stale_rank_with_samples large_prices_ranks
  by (simp add: large_prices_samples large_prices_exact)

section \<open>get\_price\_history\<close>

lemma get_price_history_hit:
  "lru_lookup (p, hours) (history_cache s) = Some v \<Longrightarrow>
   fst (get_price_history p hours e s) = Inr v \<and>
   db_log (snd (get_price_history p hours e s)) = db_log s \<and>
   price_history (snd (get_price_history p hours e s)) = price_history s"
  by (simp add: get_price_history_def)

lemma get_price_history_caches:
  "get_price_history p hours e s = (Inr v, s') \<Longrightarrow> lru_lookup (p, hours) (history_cache s') = Some v"
  by (auto simp: get_price_history_def get_price_history_body_def Let_def lru_lookup_touch lru_lookup_store
      lru_lookup_Nil split: option.splits if_splits)

lemma select_history_mset:
  "mset (select_history rows p since) =
     mset (filter (\<lambda>r. row_pair r = p \<and> since < row_timestamp r) rows)"
  by (simp add: select_history_def)

lemma select_history_sorted:
  "sorted_wrt (\<lambda>a b. row_timestamp b \<le> row_timestamp a) (select_history rows p since)"
proof -
  have "sorted (map (\<lambda>r. - row_timestamp r) (select_history rows p since))"
    unfolding select_history_def by (rule sorted_sort_key)
  then show ?thesis by (simp add: sorted_map)
qed

lemma select_history_set:
  "set (select_history rows p since) = {r \<in> set rows. row_pair r = p \<and> since < row_timestamp r}"
  by (auto simp: select_history_def)

lemma get_price_history_miss:
  assumes "lru_lookup (p, hours) (history_cache s) = None"
    and "\<not> db_fault e Connect"
    and "\<not> db_fault e (Select_history p (window_start e hours))"
    and "datetime_min \<le> window_start e hours" and "window_start e hours \<le> datetime_max"
  shows "fst (get_price_history p hours e s) =
           Inr (map row_to_Price (select_history (price_history s) p (window_start e hours)))"
  using assms
  by (simp add: get_price_history_def get_price_history_body_def Let_def window_start_def
      split: option.splits)

lemma get_price_history_miss_result:
  assumes "lru_lookup (p, hours) (history_cache s) = None"
    and "fst (get_price_history p hours e s) = Inr result"
  shows "result = map row_to_Price (select_history (price_history s) p (window_start e hours))"
  using assms
  by (auto simp: get_price_history_def get_price_history_body_def Let_def window_start_def
      split: option.splits if_splits)

lemma batch_rows_in_window:
  assumes "since < ts"
  shows "map row_to_Price (filter (\<lambda>r. row_pair r = p \<and> since < row_timestamp r) (batch_rows ts prices)) =
         map (\<lambda>(q, v). \<lparr>pair = q, price = v, timestamp = ts\<rparr>) (filter (\<lambda>(q, v). q = p) prices)"
  using assms by (induction prices) (auto simp: batch_rows_def row_to_Price_def)

text \<open>
  What the query of \<^verbatim>\<open>get_price_history\<close> returns after a store. Let a batch be stored,
  and let the history of a pair then be read with arguments that are not in the cache, on
  a working database, over a window that starts before the batch's timestamp and whose
  start is a valid \<^verbatim>\<open>datetime\<close>. The read returns exactly the samples of the pair in the
  window: those that were in the table before, and the sample of the batch with the
  batch's timestamp. They come newest first.
\<close>

lemma computed_history_after_store:
  assumes "fst (store_prices prices e s) = Inr ()"
    and "lru_lookup (p, hours) (history_cache s) = None"
    and "\<not> db_fault e' Connect"
    and "\<not> db_fault e' (Select_history p (window_start e' hours))"
    and "datetime_min \<le> window_start e' hours" and "window_start e' hours \<le> datetime_max"
    and "window_start e' hours < now e"
  shows "\<exists>result. fst (get_price_history p hours e' (snd (store_prices prices e s))) = Inr result \<and>
           mset result =
             mset (map row_to_Price
                    (filter (\<lambda>r. row_pair r = p \<and> window_start e' hours < row_timestamp r) (price_history s))) +
             mset (map (\<lambda>(q, v). \<lparr>pair = q, price = v, timestamp = now e\<rparr>) (filter (\<lambda>(q, v). q = p) prices)) \<and>
           sorted_wrt (\<lambda>a b. timestamp b \<le> timestamp a) result \<and>
           (\<forall>v. (p, v) \<in> set prices \<longrightarrow> \<lparr>pair = p, price = v, timestamp = now e\<rparr> \<in> set result)"
proof -
  let ?s' = "snd (store_prices prices e s)"
  let ?since = "window_start e' hours"
  let ?sel = "select_history (price_history ?s') p ?since"
  have rows: "price_history ?s' = price_history s @ batch_rows (now e) prices"
    using assms(1) by (simp add: store_prices_rows)
  have miss: "lru_lookup (p, hours) (history_cache ?s') = None"
    using assms(2) by (simp add: store_prices_caches)
  have res: "fst (get_price_history p hours e' ?s') = Inr (map row_to_Price ?sel)"
    using miss assms(3-6) by (rule get_price_history_miss)
  have "mset (map row_to_Price ?sel) =
      mset (map row_to_Price (filter (\<lambda>r. row_pair r = p \<and> ?since < row_timestamp r) (price_history s))) +
      mset (map row_to_Price (filter (\<lambda>r. row_pair r = p \<and> ?since < row_timestamp r) (batch_rows (now e) prices)))"
    by (simp add: select_history_mset rows)
  then have m: "mset (map row_to_Price ?sel) =
      mset (map row_to_Price (filter (\<lambda>r. row_pair r = p \<and> ?since < row_timestamp r) (price_history s))) +
      mset (map (\<lambda>(q, v). \<lparr>pair = q, price = v, timestamp = now e\<rparr>) (filter (\<lambda>(q, v). q = p) prices))"
    by (simp only: batch_rows_in_window [OF assms(7)])
  have srt: "sorted_wrt (\<lambda>a b. timestamp b \<le> timestamp a) (map row_to_Price ?sel)"
    using select_history_sorted [of "price_history ?s'" p ?since]
    by (simp add: sorted_wrt_map row_to_Price_def)
  have mem: "\<lparr>pair = p, price = v, timestamp = now e\<rparr> \<in> set (map row_to_Price ?sel)"
    if "(p, v) \<in> set prices" for v
  proof -
    from that have "\<lparr>pair = p, price = v, timestamp = now e\<rparr> \<in>
        set (map (\<lambda>(q, v). \<lparr>pair = q, price = v, timestamp = now e\<rparr>) (filter (\<lambda>(q, v). q = p) prices))"
      by force
    then have "\<lparr>pair = p, price = v, timestamp = now e\<rparr> \<in># mset (map row_to_Price ?sel)"
      by (simp only: m union_iff set_mset_mset) simp
    then show ?thesis by simp
  qed
  from res m srt mem show ?thesis by blast
qed

lemma service_one_sample_eq:
  "service_one_sample =
     \<lparr>price_history = [\<lparr>row_pair = ''btc/usd'', row_price = 50000, row_timestamp = 1000000\<rparr>],
      last_update = Some 1000000,
      history_cache = [],
      rank_cache = [],
      db_log = [Connect, Insert \<lparr>row_pair = ''btc/usd'', row_price = 50000, row_timestamp = 1000000\<rparr>, Commit],
      http_requests = []\<rparr>"
  by (simp add: service_one_sample_def new_service_def store_prices_def offline_env_def
      engine_connect_def conn_execute_insert_def conn_commit_def conn_close_def)

lemma service_read_early_eq:
  "service_read_early =
     \<lparr>price_history = [], last_update = None,
      history_cache = [((''btc/usd'', None), [])],
      rank_cache = [],
      db_log = [Connect, Select_history ''btc/usd'' (- 86400000000)],
      http_requests = []\<rparr>"
  by (simp add: service_read_early_def get_price_history_def get_price_history_body_def
      new_service_def offline_env_def lru_lookup_def lru_store_def maxsize_def select_history_def
      us_per_hour_def datetime_min_def datetime_max_def)

lemma service_read_then_stored_eq:
  "snd (store_prices [(''btc/usd'', 50000)] (offline_env 1000000) service_read_early) =
     \<lparr>price_history = [\<lparr>row_pair = ''btc/usd'', row_price = 50000, row_timestamp = 1000000\<rparr>],
      last_update = Some 1000000,
      history_cache = [((''btc/usd'', None), [])],
      rank_cache = [],
      db_log = [Connect, Select_history ''btc/usd'' (- 86400000000),
                Connect, Insert \<lparr>row_pair = ''btc/usd'', row_price = 50000, row_timestamp = 1000000\<rparr>, Commit],
      http_requests = []\<rparr>"
  by (simp add: service_read_early_eq store_prices_def offline_env_def
      engine_connect_def conn_execute_insert_def conn_commit_def conn_close_def)

lemma get_price_history_miss_cache:
  assumes "lru_lookup (p, hours) (history_cache s) = None"
    and "get_price_history p hours e s = (Inr v, s')"
  shows "history_cache s' = [((p, hours), v)]"
  using assms
  by (auto simp: get_price_history_def get_price_history_body_def Let_def lru_store_def maxsize_def
      split: if_splits)

lemma later_read:
  "fst (get_price_history ''btc/usd'' None (offline_env 3000000)
     (snd (get_price_history ''eth/usd'' None (offline_env 2000000)
       (snd (store_prices [(''btc/usd'', 50000)] (offline_env 1000000) service_read_early))))) =
     Inr [\<lparr>pair = ''btc/usd'', price = 50000, timestamp = 1000000\<rparr>]"
  unfolding service_read_then_stored_eq
  by (simp add: get_price_history_def get_price_history_body_def lru_lookup_def lru_store_def maxsize_def
      offline_env_def select_history_def row_to_Price_def us_per_hour_def datetime_min_def datetime_max_def)

text \<open>
  Claim C5, at an input where the code breaks it. On a new service the history of
  \<open>btc/usd\<close> is read, which returns the empty list; then the batch
  \<^verbatim>\<open>{"btc/usd": 50000.0}\<close> is stored, and the history is read again with the same
  arguments one second later. The second read is answered from the \<^verbatim>\<open>lru_cache\<close>: it
  returns the empty list and sends no query, while the table holds the sample and the
  body of the function, whose first statement clears the cache, would return it. The
  clearing only happens when the body runs: had the history of another pair been read
  in between, the read of \<open>btc/usd\<close> would have returned the sample.
\<close>

theorem cached_history_misses_stored_batch:
  "fst (get_price_history ''btc/usd'' None (offline_env 0) new_service) = Inr [] \<and>
   fst (store_prices [(''btc/usd'', 50000)] (offline_env 1000000) service_read_early) = Inr () \<and>
   price_history (snd (store_prices [(''btc/usd'', 50000)] (offline_env 1000000) service_read_early)) =
     [\<lparr>row_pair = ''btc/usd'', row_price = 50000, row_timestamp = 1000000\<rparr>] \<and>
   fst (get_price_history ''btc/usd'' None (offline_env 2000000)
     (snd (store_prices [(''btc/usd'', 50000)] (offline_env 1000000) service_read_early))) = Inr [] \<and>
   db_log (snd (get_price_history ''btc/usd'' None (offline_env 2000000)
     (snd (store_prices [(''btc/usd'', 50000)] (offline_env 1000000) service_read_early)))) =
     db_log (snd (store_prices [(''btc/usd'', 50000)] (offline_env 1000000) service_read_early)) \<and>
   fst (get_price_history_body ''btc/usd'' 24 (offline_env 2000000)
     (snd (store_prices [(''btc/usd'', 50000)] (offline_env 1000000) service_read_early))) =
     Inr [\<lparr>pair = ''btc/usd'', price = 50000, timestamp = 1000000\<rparr>] \<and>
   fst (get_price_history ''btc/usd'' None (offline_env 3000000)
     (snd (get_price_history ''eth/usd'' None (offline_env 2000000)
       (snd (store_prices [(''btc/usd'', 50000)] (offline_env 1000000) service_read_early))))) =
     Inr [\<lparr>pair = ''btc/usd'', price = 50000, timestamp = 1000000\<rparr>]"
proof -
  have "fst (get_price_history ''btc/usd'' None (offline_env 0) new_service) = Inr []"
    by (simp add: get_price_history_def get_price_history_body_def
      new_service_def offline_env_def lru_lookup_def select_history_def
      us_per_hour_def datetime_min_def datetime_max_def)
  moreover have "fst (store_prices [(''btc/usd'', 50000)] (offline_env 1000000) service_read_early) = Inr ()"
    by (rule store_prices_ok) (simp_all add: offline_env_def)
  moreover have "fst (get_price_history ''btc/usd'' None (offline_env 2000000)
     (snd (store_prices [(''btc/usd'', 50000)] (offline_env 1000000) service_read_early))) = Inr [] \<and>
   db_log (snd (get_price_history ''btc/usd'' None (offline_env 2000000)
     (snd (store_prices [(''btc/usd'', 50000)] (offline_env 1000000) service_read_early)))) =
     db_log (snd (store_prices [(''btc/usd'', 50000)] (offline_env 1000000) service_read_early))"
    unfolding service_read_then_stored_eq
    by (simp add: get_price_history_def lru_lookup_def)
  moreover have "fst (get_price_history_body ''btc/usd'' 24 (offline_env 2000000)
     (snd (store_prices [(''btc/usd'', 50000)] (offline_env 1000000) service_read_early))) =
     Inr [\<lparr>pair = ''btc/usd'', price = 50000, timestamp = 1000000\<rparr>]"
    unfolding service_read_then_stored_eq
    by (simp add: get_price_history_body_def offline_env_def
        select_history_def row_to_Price_def us_per_hour_def datetime_min_def datetime_max_def)
  ultimately show ?thesis using later_read by (simp add: service_read_then_stored_eq)
qed

lemma boundary_rows:
  "filter (\<lambda>r. row_pair r = p \<and> now e - 24 * us_per_hour \<le> row_timestamp r) (price_history s) =
   filter (\<lambda>r. row_pair r = p \<and> now e - 86400000000 \<le> row_timestamp r) (price_history s)"
  by (simp add: us_per_hour_def)

text \<open>
  Claim C10. Every sample that \<^verbatim>\<open>get_price_history\<close> returns from its query is strictly
  newer than now minus the requested hours, and every row of the pair that is strictly
  newer is returned: a sample exactly at the bound is left out. The window of the ranking
  query contains a row that is exactly 24 hours old, and such a row counts as one of the
  two samples a pair needs for a rank: \<^verbatim>\<open>get_volatility_rank\<close> returns a rank from its
  query exactly when the pair has two rows that are at most 24 hours old.
\<close>

theorem window_bounds_at_the_boundary:
  "(lru_lookup (p, hours) (history_cache s) = None \<and> fst (get_price_history p hours e s) = Inr result \<longrightarrow>
      (\<forall>x \<in> set result. window_start e hours < timestamp x) \<and>
      (\<forall>r \<in> set (price_history s). row_pair r = p \<and> window_start e hours < row_timestamp r \<longrightarrow>
         row_to_Price r \<in> set result)) \<and>
   (lru_lookup p (rank_cache s) = None \<and> \<not> db_fault e Connect \<and> \<not> db_fault e (Select_rank p) \<and>
    price_history s = xs @ r # ys \<and> row_pair r = p \<and> row_timestamp r = now e - 24 * us_per_hour \<and>
    r' \<in> set (xs @ ys) \<and> row_pair r' = p \<and> now e - 24 * us_per_hour \<le> row_timestamp r' \<longrightarrow>
      r \<in> set (in_window (price_history s) (now e)) \<and>
      (\<exists>k. fst (get_volatility_rank p e s) = Inr (Some k))) \<and>
   (lru_lookup p (rank_cache s) = None \<and> \<not> db_fault e Connect \<and> \<not> db_fault e (Select_rank p) \<longrightarrow>
      (fst (get_volatility_rank p e s) = Inr None \<longleftrightarrow>
         length (filter (\<lambda>r. row_pair r = p \<and> now e - 24 * us_per_hour \<le> row_timestamp r)
                   (price_history s)) < 2))"
proof (intro conjI impI)
  assume a: "lru_lookup (p, hours) (history_cache s) = None \<and> fst (get_price_history p hours e s) = Inr result"
  then have res: "result = map row_to_Price (select_history (price_history s) p (window_start e hours))"
    using get_price_history_miss_result by blast
  show "\<forall>x \<in> set result. window_start e hours < timestamp x"
    by (auto simp: res select_history_set row_to_Price_def)
  show "\<forall>r \<in> set (price_history s). row_pair r = p \<and> window_start e hours < row_timestamp r \<longrightarrow>
         row_to_Price r \<in> set result"
    by (auto simp: res select_history_set)
next
  assume b: "lru_lookup p (rank_cache s) = None \<and> \<not> db_fault e Connect \<and> \<not> db_fault e (Select_rank p) \<and>
    price_history s = xs @ r # ys \<and> row_pair r = p \<and> row_timestamp r = now e - 24 * us_per_hour \<and>
    r' \<in> set (xs @ ys) \<and> row_pair r' = p \<and> now e - 24 * us_per_hour \<le> row_timestamp r'"
  then show "r \<in> set (in_window (price_history s) (now e))"
    by (simp add: in_window_def)
  let ?P = "\<lambda>r. row_pair r = p \<and> now e - 24 * us_per_hour \<le> row_timestamp r"
  from b have "r' \<in> set (filter ?P (xs @ ys))" by simp
  then have pos: "0 < length (filter ?P (xs @ ys))" by (rule length_pos_if_in_set)
  from b have len: "length (filter ?P (price_history s)) = Suc (length (filter ?P (xs @ ys)))"
    by simp
  from pos len have "2 \<le> length (filter ?P (price_history s))" by linarith
  then have "2 \<le> length (window_samples s e p)"
    by (simp only: window_samples_def length_map boundary_rows [symmetric])
  moreover from b have "fst (get_volatility_rank p e s) =
     Inr (if 2 \<le> length (window_samples s e p) then Some (Suc (more_volatile s e p)) else None)"
    by (simp add: computed_rank)
  ultimately show "\<exists>k. fst (get_volatility_rank p e s) = Inr (Some k)" by simp
next
  assume c: "lru_lookup p (rank_cache s) = None \<and> \<not> db_fault e Connect \<and> \<not> db_fault e (Select_rank p)"
  then have "fst (get_volatility_rank p e s) =
     Inr (if 2 \<le> length (window_samples s e p) then Some (Suc (more_volatile s e p)) else None)"
    by (simp add: computed_rank)
  then show "fst (get_volatility_rank p e s) = Inr None \<longleftrightarrow>
         length (filter (\<lambda>r. row_pair r = p \<and> now e - 24 * us_per_hour \<le> row_timestamp r)
                   (price_history s)) < 2"
    by (auto simp: window_samples_def boundary_rows)
qed

lemma service_day_old_eq:
  "service_day_old =
     \<lparr>price_history =
        [\<lparr>row_pair = ''btc/usd'', row_price = 50000, row_timestamp = 0\<rparr>,
         \<lparr>row_pair = ''btc/usd'', row_price = 51000, row_timestamp = 3600000000\<rparr>],
      last_update = Some 3600000000,
      history_cache = [],
      rank_cache = [],
      db_log = [Connect, Insert \<lparr>row_pair = ''btc/usd'', row_price = 50000, row_timestamp = 0\<rparr>, Commit,
                Connect, Insert \<lparr>row_pair = ''btc/usd'', row_price = 51000, row_timestamp = 3600000000\<rparr>, Commit],
      http_requests = []\<rparr>"
  by (simp add: service_day_old_def new_service_def store_prices_def offline_env_def
      engine_connect_def conn_execute_insert_def conn_commit_def conn_close_def)

lemma history_day_old:
  "fst (get_price_history ''btc/usd'' (Some 24) (offline_env 86400000000) service_day_old) =
     Inr [\<lparr>pair = ''btc/usd'', price = 51000, timestamp = 3600000000\<rparr>]"
  by (simp add: service_day_old_eq get_price_history_def get_price_history_body_def
      lru_lookup_def offline_env_def select_history_def
      row_to_Price_def us_per_hour_def datetime_min_def datetime_max_def)

theorem window_bounds_at_the_boundary_witness:
  "lru_lookup (''btc/usd'', Some 24) (history_cache service_day_old) = None \<and>
   fst (get_price_history ''btc/usd'' (Some 24) (offline_env 86400000000) service_day_old) =
     Inr [\<lparr>pair = ''btc/usd'', price = 51000, timestamp = 3600000000\<rparr>] \<and>
   window_start (offline_env 86400000000) (Some 24) = 0 \<and>
   0 < timestamp \<lparr>pair = ''btc/usd'', price = 51000, timestamp = 3600000000\<rparr> \<and>
   price_history service_day_old =
     [] @ \<lparr>row_pair = ''btc/usd'', row_price = 50000, row_timestamp = 0\<rparr> #
       [\<lparr>row_pair = ''btc/usd'', row_price = 51000, row_timestamp = 3600000000\<rparr>] \<and>
   (\<exists>k. fst (get_volatility_rank ''btc/usd'' (offline_env 86400000000) service_day_old) = Inr (Some k)) \<and>
   fst (get_volatility_rank ''btc/usd'' (offline_env 86400000001) service_day_old) = Inr None"
proof -
  have h1: "lru_lookup (''btc/usd'', Some 24) (history_cache service_day_old) = None"
    and h2: "lru_lookup ''btc/usd'' (rank_cache service_day_old) = None"
    by (simp_all add: service_day_old_eq lru_lookup_def)
  have h3: "window_start (offline_env 86400000000) (Some 24) = 0"
    by (simp add: window_start_def offline_env_def us_per_hour_def)
  have h4: "price_history service_day_old =
     [] @ \<lparr>row_pair = ''btc/usd'', row_price = 50000, row_timestamp = 0\<rparr> #
       [\<lparr>row_pair = ''btc/usd'', row_price = 51000, row_timestamp = 3600000000\<rparr>]"
    by (simp add: service_day_old_eq)
  have h5: "\<not> db_fault (offline_env t) op" for op t
    by (simp add: offline_env_def)
  have h6: "now (offline_env 86400000000) - 24 * us_per_hour = 0"
    "now (offline_env 86400000001) - 24 * us_per_hour = 1"
    by (simp_all add: offline_env_def us_per_hour_def)
  from window_bounds_at_the_boundary [of "''btc/usd''" "Some 24" service_day_old "offline_env 86400000000"
      "[\<lparr>pair = ''btc/usd'', price = 51000, timestamp = 3600000000\<rparr>]"
      "[]" "\<lparr>row_pair = ''btc/usd'', row_price = 50000, row_timestamp = 0\<rparr>"
      "[\<lparr>row_pair = ''btc/usd'', row_price = 51000, row_timestamp = 3600000000\<rparr>]"
      "\<lparr>row_pair = ''btc/usd'', row_price = 51000, row_timestamp = 3600000000\<rparr>"]
    h1 h2 h3 h4 h5 h6 history_day_old
  have a: "\<exists>k. fst (get_volatility_rank ''btc/usd'' (offline_env 86400000000) service_day_old) = Inr (Some k)"
    by simp
  from window_bounds_at_the_boundary [of "''btc/usd''" "Some 24" service_day_old "offline_env 86400000001"]
    h2 h5 h6
  have b: "fst (get_volatility_rank ''btc/usd'' (offline_env 86400000001) service_day_old) = Inr None"
    by (simp add: service_day_old_eq)
  from h1 h3 h4 history_day_old a b show ?thesis by simp
qed

end
